theory Spec2Isabelle
  imports Complex_Main
begin

text \<open>
  A model of the data pipeline of the university list: the text extractors and the record
  normalizer of the parser module, the filters of the search component, and the sorting
  and pagination of the table component. Functions keep the names of the source. What
  the source takes from its host (regular expressions, \<open>decodeURIComponent\<close>, \<open>trim\<close>,
  \<open>slice\<close>, \<open>sort\<close>) is modelled after the language standard; what depends on the host's
  locale and Unicode tables is a parameter (the record \<open>host\<close>). An exception is a value
  \<open>Inl\<close> of a sum type, and the one piece of mutable state, the \<open>lastIndex\<close> of the global
  email pattern, is passed in and returned.
\<close>

section \<open>Strings and regular expressions of the host language\<close>

text \<open>
  A string of the source language is a sequence of UTF-16 code units; a code unit is
  modelled as a natural number and a string as a list of them. \<open>str\<close> embeds an
  ASCII literal.
\<close>

type_synonym jsstring = "nat list"

definition str :: "string \<Rightarrow> jsstring" where
  "str s = map of_char s"

text \<open>The character classes \<open>\s\<close>, \<open>\d\<close>, \<open>\w\<close> and \<open>[a-zA-Z]\<close> of a pattern without the
  unicode flag. \<open>\s\<close> is the white space and line terminator set, which is also what
  \<open>trim\<close> strips.\<close>

definition isSpace :: "nat \<Rightarrow> bool" where
  "isSpace c = (c \<in> set [9, 10, 11, 12, 13, 32, 160, 5760, 8232, 8233, 8239, 8287, 12288, 65279]
                \<or> (8192 \<le> c \<and> c \<le> 8202))"

definition isDigit :: "nat \<Rightarrow> bool" where
  "isDigit c = (48 \<le> c \<and> c \<le> 57)"

definition isAlpha :: "nat \<Rightarrow> bool" where
  "isAlpha c = ((65 \<le> c \<and> c \<le> 90) \<or> (97 \<le> c \<and> c \<le> 122))"

definition isWord :: "nat \<Rightarrow> bool" where
  "isWord c = (isAlpha c \<or> isDigit c \<or> c = 95)"

text \<open>
  The fragment of the pattern language that the source uses: character classes,
  sequence, alternation, greedy star and one capturing group. The derived forms are
  \<open>+\<close>, \<open>?\<close> and the counted repetitions.
\<close>

datatype regex =
    Cls "nat \<Rightarrow> bool"
  | Eps
  | Seq regex regex
  | Alt regex regex
  | Star regex
  | Group regex

definition Plus :: "regex \<Rightarrow> regex" where
  "Plus r = Seq r (Star r)"

definition Opt :: "regex \<Rightarrow> regex" where
  "Opt r = Alt r Eps"

fun Rep :: "nat \<Rightarrow> regex \<Rightarrow> regex" where
  "Rep 0 r = Eps"
| "Rep (Suc 0) r = r"
| "Rep (Suc n) r = Seq r (Rep n r)"

definition ch :: "char \<Rightarrow> regex" where
  "ch c = Cls (\<lambda>x. x = of_char c)"

text \<open>A literal letter under the ignore-case flag: without the unicode flag only the
  two ASCII cases of an ASCII letter are equivalent to it.\<close>

definition ci :: "char \<Rightarrow> regex" where
  "ci c = Cls (\<lambda>x. isAlpha x \<and> (x = of_char c \<or> x + 32 = of_char c \<or> x = of_char c + 32))"

fun lit :: "string \<Rightarrow> regex" where
  "lit [] = Eps"
| "lit [c] = ch c"
| "lit (c # cs) = Seq (ch c) (lit cs)"

fun liti :: "string \<Rightarrow> regex" where
  "liti [] = Eps"
| "liti [c] = ci c"
| "liti (c # cs) = Seq (ci c) (liti cs)"

text \<open>
  The backtracking matcher. A matcher state is the input that is left and the text of
  capture group 1. \<open>ms r st\<close> lists the states in which \<open>r\<close> can end, in the order in
  which backtracking tries them: the left alternative first, the longest repetition
  first. An iteration of a star that consumes nothing is rejected.
\<close>

type_synonym mstate = "jsstring \<times> jsstring option"

function ms :: "regex \<Rightarrow> mstate \<Rightarrow> mstate list" where
  "ms (Cls P) (s, c) = (case s of [] \<Rightarrow> [] | x # xs \<Rightarrow> if P x then [(xs, c)] else [])"
| "ms Eps st = [st]"
| "ms (Seq a b) st = concat (map (ms b) (ms a st))"
| "ms (Alt a b) st = ms a st @ ms b st"
| "ms (Star a) (s, c) =
     concat (map (\<lambda>st'. if length (fst st') < length s then ms (Star a) st' else [])
                 (ms a (s, c))) @ [(s, c)]"
| "ms (Group a) (s, c) =
     map (\<lambda>st'. (fst st', Some (take (length s - length (fst st')) s))) (ms a (s, c))"
  by pat_completeness auto
termination
  by (relation "inv_image (less_than <*lex*> less_than) (\<lambda>(r, st). (size r, length (fst st)))")
     auto

text \<open>The first match at the start of \<open>s\<close>: its length and the text of group 1.\<close>

definition matchAt :: "regex \<Rightarrow> jsstring \<Rightarrow> (nat \<times> jsstring option) option" where
  "matchAt r s = (case ms r (s, None) of [] \<Rightarrow> None
                  | st # _ \<Rightarrow> Some (length s - length (fst st), snd st))"

text \<open>The leftmost match in \<open>s\<close>: the number of code units before it, its length and
  group 1. None of the patterns looks behind, so a match at an index is a match at the
  start of the suffix.\<close>

fun search :: "regex \<Rightarrow> jsstring \<Rightarrow> (nat \<times> nat \<times> jsstring option) option" where
  "search r [] = (case matchAt r [] of None \<Rightarrow> None | Some (n, g) \<Rightarrow> Some (0, n, g))"
| "search r (x # xs) =
     (case matchAt r (x # xs) of
        Some (n, g) \<Rightarrow> Some (0, n, g)
      | None \<Rightarrow> (case search r xs of None \<Rightarrow> None
                 | Some (i, n, g) \<Rightarrow> Some (Suc i, n, g)))"

lemma ms_length: "st' \<in> set (ms r st) \<Longrightarrow> length (fst st') \<le> length (fst st)"
proof (induction r st arbitrary: st' rule: ms.induct)
  case (1 P s c)
  then show ?case by (auto split: list.splits if_splits)
next
  case (3 a b st)
  then obtain m where "m \<in> set (ms a st)" "st' \<in> set (ms b m)" by auto
  with "3.IH" show ?case by (meson le_trans)
next
  case (5 a s c)
  from "5.prems" consider "st' = (s, c)"
    | m where "m \<in> set (ms a (s, c))" "length (fst m) < length s" "st' \<in> set (ms (Star a) m)"
    by (auto split: if_splits)
  then show ?case
  proof cases
    case 1
    then show ?thesis by simp
  next
    case 2
    with "5.IH"(2) [of m st'] show ?thesis by simp
  qed
qed auto

lemma matchAt_length: "matchAt r s = Some (n, g) \<Longrightarrow> n \<le> length s"
  by (auto simp: matchAt_def split: list.splits)

lemma search_length: "search r s = Some (i, n, g) \<Longrightarrow> i + n \<le> length s"
proof (induction s arbitrary: i)
  case Nil
  then show ?case by (auto split: option.splits dest: matchAt_length)
next
  case (Cons x xs)
  then show ?case by (fastforce split: option.splits dest: matchAt_length)
qed

text \<open>
  \<open>RegExp.prototype.test\<close> on a pattern with the global flag reads and writes the
  pattern's \<open>lastIndex\<close>: the search starts there, a match leaves \<open>lastIndex\<close> at the
  end of the match and a failure resets it to 0. The state is passed in and returned.
\<close>

definition regexTest :: "regex \<Rightarrow> jsstring \<Rightarrow> nat \<Rightarrow> bool \<times> nat" where
  "regexTest r s lastIndex =
     (if lastIndex > length s then (False, 0)
      else case search r (drop lastIndex s) of
             None \<Rightarrow> (False, 0)
           | Some (i, n, g) \<Rightarrow> (True, lastIndex + i + n))"

text \<open>
  \<open>String.prototype.match\<close> and \<open>replace\<close> with a global pattern set \<open>lastIndex\<close> to 0
  before the first search and leave it at 0, so they do not depend on the state and
  it is not passed. After an empty match the search moves on by one code unit.
\<close>

function matchGlobal :: "regex \<Rightarrow> jsstring \<Rightarrow> jsstring list" where
  "matchGlobal r s =
     (case search r s of
        None \<Rightarrow> []
      | Some (i, n, g) \<Rightarrow>
          take n (drop i s) #
          (if n = 0 then (if i < length s then matchGlobal r (drop (Suc i) s) else [])
           else matchGlobal r (drop (i + n) s)))"
  by pat_completeness auto
termination
  by (relation "measure (\<lambda>(r, s). length s)") (auto dest: search_length)

function replaceGlobal :: "regex \<Rightarrow> jsstring \<Rightarrow> jsstring \<Rightarrow> jsstring" where
  "replaceGlobal r rep s =
     (case search r s of
        None \<Rightarrow> s
      | Some (i, n, g) \<Rightarrow>
          take i s @ rep @
          (if n = 0 then (if i < length s then take 1 (drop i s) @ replaceGlobal r rep (drop (Suc i) s)
                          else [])
           else replaceGlobal r rep (drop (i + n) s)))"
  by pat_completeness auto
termination
  by (relation "measure (\<lambda>(r, rep, s). length s)") (auto dest: search_length)

text \<open>Without the global flag \<open>match\<close> gives the first match (the whole match and
  group 1) and \<open>replace\<close> replaces the first match only; \<open>lastIndex\<close> is ignored.\<close>

definition matchFirst :: "regex \<Rightarrow> jsstring \<Rightarrow> (jsstring \<times> jsstring option) option" where
  "matchFirst r s = (case search r s of None \<Rightarrow> None
                     | Some (i, n, g) \<Rightarrow> Some (take n (drop i s), g))"

definition replaceFirst :: "regex \<Rightarrow> jsstring \<Rightarrow> jsstring \<Rightarrow> jsstring" where
  "replaceFirst r rep s = (case search r s of None \<Rightarrow> s
                           | Some (i, n, g) \<Rightarrow> take i s @ rep @ drop (i + n) s)"

definition trim :: "jsstring \<Rightarrow> jsstring" where
  "trim s = rev (dropWhile isSpace (rev (dropWhile isSpace s)))"

section \<open>Text extractors\<close>

text \<open>The patterns of the parser module, as written there.\<close>

definition URL_REGEX :: regex where
  \<comment> \<open>\<^verbatim>\<open>/https?:\/\/[^\s]+/g\<close>\<close>
  "URL_REGEX = Seq (lit ''http'') (Seq (Opt (ch CHR ''s'')) (Seq (lit ''://'')
                 (Plus (Cls (\<lambda>x. \<not> isSpace x)))))"

text \<open>An auxiliary notion for the proofs about the URL pattern, not a function of
  the source: a string starts like a URL when it is a scheme followed by a code unit
  that is not white space.\<close>

definition urlStart :: "jsstring \<Rightarrow> bool" where
  "urlStart s = (\<exists>scheme x rest. (scheme = str ''http://'' \<or> scheme = str ''https://'')
                   \<and> s = scheme @ x # rest \<and> \<not> isSpace x)"

definition emailChar :: "nat \<Rightarrow> bool" where
  \<comment> \<open>\<^verbatim>\<open>[\w.-]\<close>\<close>
  "emailChar x = (isWord x \<or> x = of_char CHR ''.'' \<or> x = of_char CHR ''-'')"

definition EMAIL_REGEX :: regex where
  \<comment> \<open>\<^verbatim>\<open>/[\w.-]+@[\w.-]+\.[a-zA-Z]{2,}/g\<close>\<close>
  "EMAIL_REGEX = Seq (Plus (Cls emailChar)) (Seq (ch CHR ''@'') (Seq (Plus (Cls emailChar))
                   (Seq (ch CHR ''.'') (Seq (Rep 2 (Cls isAlpha)) (Star (Cls isAlpha))))))"

datatype error = URIError

text \<open>
  \<open>decodeURIComponent\<close> of the host, after the language standard: a \<open>%\<close> must be
  followed by two hexadecimal digits; an octet below 128 is the code unit itself; an
  octet with \<open>n\<close> leading one bits starts a UTF-8 sequence of \<open>n\<close> escaped octets
  (\<open>n\<close> from 2 to 4), which must be the well-formed encoding of a code point, written
  to the result in UTF-16. Everything else raises \<open>URIError\<close>.
\<close>

definition hexVal :: "nat \<Rightarrow> nat option" where
  "hexVal c = (if 48 \<le> c \<and> c \<le> 57 then Some (c - 48)
               else if 65 \<le> c \<and> c \<le> 70 then Some (c - 55)
               else if 97 \<le> c \<and> c \<le> 102 then Some (c - 87)
               else None)"

fun hexOctet :: "jsstring \<Rightarrow> nat option" where
  "hexOctet (a # b # _) =
     (case (hexVal a, hexVal b) of (Some h, Some l) \<Rightarrow> Some (16 * h + l) | _ \<Rightarrow> None)"
| "hexOctet _ = None"

definition leadingOnes :: "nat \<Rightarrow> nat" where
  "leadingOnes b = (if b < 128 then 0 else if b < 192 then 1 else if b < 224 then 2
                    else if b < 240 then 3 else if b < 248 then 4 else 5)"

text \<open>The \<open>k\<close> escaped octets \<open>%XX\<close> at the start of a string.\<close>

fun escapedOctets :: "nat \<Rightarrow> jsstring \<Rightarrow> nat list option" where
  "escapedOctets 0 s = Some []"
| "escapedOctets (Suc k) s =
     (case s of
        p # rest \<Rightarrow>
          (if p = 37 then
             (case hexOctet rest of
                None \<Rightarrow> None
              | Some b \<Rightarrow> (case escapedOctets k (drop 2 rest) of
                             None \<Rightarrow> None | Some bs \<Rightarrow> Some (b # bs)))
           else None)
      | [] \<Rightarrow> None)"

text \<open>The code point of a UTF-8 sequence with lead octet \<open>b\<close> of \<open>n\<close> octets, when the
  sequence is well formed: continuation octets in 128..191, shortest form, no
  surrogate, at most 0x10FFFF.\<close>

definition utf8CodePoint :: "nat \<Rightarrow> nat \<Rightarrow> nat list \<Rightarrow> nat option" where
  "utf8CodePoint n b conts =
     (if list_all (\<lambda>c. 128 \<le> c \<and> c < 192) conts then
        (let v = foldl (\<lambda>acc c. acc * 64 + (c - 128)) (b mod 2 ^ (7 - n)) conts;
             lo = (if n = 2 then 128 else if n = 3 then 2048 else 65536)
         in if lo \<le> v \<and> v \<le> 1114111 \<and> \<not> (55296 \<le> v \<and> v \<le> 57343) then Some v else None)
      else None)"

definition utf16Encode :: "nat \<Rightarrow> jsstring" where
  "utf16Encode v = (if v < 65536 then [v]
                    else [55296 + (v - 65536) div 1024, 56320 + (v - 65536) mod 1024])"

fun decodeURIComponent :: "jsstring \<Rightarrow> error + jsstring" where
  "decodeURIComponent [] = Inr []"
| "decodeURIComponent (c # cs) =
     (if c \<noteq> 37 then
        (case decodeURIComponent cs of Inl e \<Rightarrow> Inl e | Inr r \<Rightarrow> Inr (c # r))
      else
        (case hexOctet cs of
           None \<Rightarrow> Inl URIError
         | Some b \<Rightarrow>
             (let n = leadingOnes b in
              if n = 0 then
                (case decodeURIComponent (drop 2 cs) of Inl e \<Rightarrow> Inl e | Inr r \<Rightarrow> Inr (b # r))
              else if n = 1 \<or> n > 4 then Inl URIError
              else
                (case escapedOctets (n - 1) (drop 2 cs) of
                   None \<Rightarrow> Inl URIError
                 | Some conts \<Rightarrow>
                     (case utf8CodePoint n b conts of
                        None \<Rightarrow> Inl URIError
                      | Some v \<Rightarrow>
                          (case decodeURIComponent (drop (3 * (n - 1)) (drop 2 cs)) of
                             Inl e \<Rightarrow> Inl e
                           | Inr r \<Rightarrow> Inr (utf16Encode v @ r)))))))"

text \<open>\<open>links.map(link => decodeURIComponent(link))\<close>: the first link that does not
  decode raises.\<close>

fun decodeAll :: "jsstring list \<Rightarrow> error + jsstring list" where
  "decodeAll [] = Inr []"
| "decodeAll (l # ls) =
     (case decodeURIComponent l of
        Inl e \<Rightarrow> Inl e
      | Inr d \<Rightarrow> (case decodeAll ls of Inl e \<Rightarrow> Inl e | Inr ds \<Rightarrow> Inr (d # ds)))"

record linksResult =
  el_text :: jsstring
  el_links :: "jsstring list"

definition extractLinks :: "jsstring \<Rightarrow> error + linksResult" where
  "extractLinks t =
     (if t = [] then Inr \<lparr>el_text = [], el_links = []\<rparr>
      else
        (let links = matchGlobal URL_REGEX t;
             cleanText = trim (replaceGlobal URL_REGEX [] t)
         in case decodeAll links of
              Inl e \<Rightarrow> Inl e
            | Inr ds \<Rightarrow> Inr \<lparr>el_text = cleanText, el_links = ds\<rparr>))"

text \<open>The two percentage patterns of \<open>parseAcceptanceRate\<close>.\<close>

definition PERCENT_REGEX :: regex where
  \<comment> \<open>\<^verbatim>\<open>/(\d+(?:\.\d+)?)\s*%/\<close>\<close>
  "PERCENT_REGEX =
     Seq (Group (Seq (Plus (Cls isDigit)) (Opt (Seq (ch CHR ''.'') (Plus (Cls isDigit))))))
         (Seq (Star (Cls isSpace)) (ch CHR ''%''))"

definition PERCENT_NOTE_REGEX :: regex where
  \<comment> \<open>\<^verbatim>\<open>/\d+(?:\.\d+)?\s*%\s*(?:\(approx\.\))?/g\<close>\<close>
  "PERCENT_NOTE_REGEX =
     Seq (Plus (Cls isDigit)) (Seq (Opt (Seq (ch CHR ''.'') (Plus (Cls isDigit))))
         (Seq (Star (Cls isSpace)) (Seq (ch CHR ''%'') (Seq (Star (Cls isSpace))
         (Opt (lit ''(approx.)''))))))"

record rateResult =
  pr_rate :: jsstring
  pr_notes :: jsstring
  pr_links :: "jsstring list"

text \<open>A template literal writes a group that took no part in the match as
  \<open>undefined\<close>.\<close>

definition groupText :: "jsstring option \<Rightarrow> jsstring" where
  "groupText g = (case g of Some t \<Rightarrow> t | None \<Rightarrow> str ''undefined'')"

definition parseAcceptanceRate :: "jsstring \<Rightarrow> error + rateResult" where
  "parseAcceptanceRate t =
     (if t = [] then Inr \<lparr>pr_rate = str ''N/A'', pr_notes = [], pr_links = []\<rparr>
      else
        (case extractLinks t of
           Inl e \<Rightarrow> Inl e
         | Inr l \<Rightarrow>
             (let cleanText = el_text l;
                  rate = (case matchFirst PERCENT_REGEX cleanText of
                            Some (m, g) \<Rightarrow> groupText g @ str ''%''
                          | None \<Rightarrow> str ''N/A'');
                  notes = trim (replaceGlobal PERCENT_NOTE_REGEX [] cleanText)
              in Inr \<lparr>pr_rate = rate, pr_notes = notes, pr_links = el_links l\<rparr>)))"

text \<open>The three date patterns of \<open>parseDeadline\<close>, in the order of the source. In
  the second one the group holds the month only.\<close>

definition DATE_ISO :: regex where
  \<comment> \<open>\<^verbatim>\<open>/(\d{4}-\d{2}-\d{2})/\<close>\<close>
  "DATE_ISO = Group (Seq (Rep 4 (Cls isDigit)) (Seq (ch CHR ''-'') (Seq (Rep 2 (Cls isDigit))
                (Seq (ch CHR ''-'') (Rep 2 (Cls isDigit))))))"

definition DATE_MON_YEAR :: regex where
  \<comment> \<open>\<^verbatim>\<open>/(Jan|Feb|Mar|Apr|May|Jun|Jul|Aug|Sep|Oct|Nov|Dec)\s+\d{4}/i\<close>\<close>
  "DATE_MON_YEAR =
     Seq (Group (Alt (liti ''Jan'') (Alt (liti ''Feb'') (Alt (liti ''Mar'') (Alt (liti ''Apr'')
           (Alt (liti ''May'') (Alt (liti ''Jun'') (Alt (liti ''Jul'') (Alt (liti ''Aug'')
           (Alt (liti ''Sep'') (Alt (liti ''Oct'') (Alt (liti ''Nov'') (liti ''Dec'')))))))))))))
         (Seq (Plus (Cls isSpace)) (Rep 4 (Cls isDigit)))"

definition DATE_LONG :: regex where
  \<comment> \<open>\<^verbatim>\<open>/(\w+\s+\d{1,2},?\s+\d{4})/\<close>\<close>
  "DATE_LONG = Group (Seq (Plus (Cls isWord)) (Seq (Plus (Cls isSpace))
                 (Seq (Seq (Cls isDigit) (Opt (Cls isDigit))) (Seq (Opt (ch CHR '',''))
                 (Seq (Plus (Cls isSpace)) (Rep 4 (Cls isDigit)))))))"

definition datePatterns :: "regex list" where
  "datePatterns = [DATE_ISO, DATE_MON_YEAR, DATE_LONG]"

text \<open>The loop over the patterns: the first pattern that matches gives \<open>match[1]\<close> as
  the date (\<open>None\<close> is \<open>undefined\<close>) and the text without the match, trimmed, as the
  notes.\<close>

fun firstDate :: "regex list \<Rightarrow> jsstring \<Rightarrow> jsstring option \<times> jsstring" where
  "firstDate [] cleanText = (Some [], cleanText)"
| "firstDate (pattern # rest) cleanText =
     (case matchFirst pattern cleanText of
        Some (m, g) \<Rightarrow> (g, trim (replaceFirst pattern [] cleanText))
      | None \<Rightarrow> firstDate rest cleanText)"

record deadlineResult =
  pd_date :: "jsstring option"
  pd_notes :: jsstring
  pd_links :: "jsstring list"

definition parseDeadline :: "jsstring \<Rightarrow> error + deadlineResult" where
  "parseDeadline t =
     (if t = [] then Inr \<lparr>pd_date = Some [], pd_notes = [], pd_links = []\<rparr>
      else
        (case extractLinks t of
           Inl e \<Rightarrow> Inl e
         | Inr l \<Rightarrow>
             (case firstDate datePatterns (el_text l) of
                (date, notes) \<Rightarrow> Inr \<lparr>pd_date = date, pd_notes = notes, pd_links = el_links l\<rparr>)))"

text \<open>\<open>isEmail\<close> calls \<open>test\<close> on the shared global pattern: it takes the pattern's
  \<open>lastIndex\<close> and returns the new one with its answer.\<close>

definition isEmail :: "jsstring \<Rightarrow> nat \<Rightarrow> bool \<times> nat" where
  "isEmail s lastIndex = regexTest EMAIL_REGEX s lastIndex"

section \<open>Numbers and the host environment\<close>

text \<open>
  A number of the source language is a double: a finite value, an infinity or NaN. A
  finite double is modelled by the rational number it denotes (both zeros are
  \<open>Finite 0\<close>). Comparisons with NaN are false.
\<close>

datatype number = Finite rat | PosInf | NegInf | NaN

fun num_less :: "number \<Rightarrow> number \<Rightarrow> bool" where
  "num_less NaN _ = False"
| "num_less _ NaN = False"
| "num_less (Finite a) (Finite b) = (a < b)"
| "num_less _ NegInf = False"
| "num_less PosInf _ = False"
| "num_less _ PosInf = True"
| "num_less NegInf _ = True"

definition num_le :: "number \<Rightarrow> number \<Rightarrow> bool" where
  "num_le a b = (a \<noteq> NaN \<and> b \<noteq> NaN \<and> (a = b \<or> num_less a b))"

definition num_ge :: "number \<Rightarrow> number \<Rightarrow> bool" where
  "num_ge a b = num_le b a"

definition num_gt :: "number \<Rightarrow> number \<Rightarrow> bool" where
  "num_gt a b = num_less b a"

text \<open>Subtraction. The difference of two finite doubles is rounded, but it has the
  sign of the exact difference, which is all a sort comparator is read for.\<close>

fun num_sub :: "number \<Rightarrow> number \<Rightarrow> number" where
  "num_sub NaN _ = NaN"
| "num_sub _ NaN = NaN"
| "num_sub (Finite a) (Finite b) = Finite (a - b)"
| "num_sub PosInf PosInf = NaN"
| "num_sub NegInf NegInf = NaN"
| "num_sub PosInf _ = PosInf"
| "num_sub NegInf _ = NegInf"
| "num_sub _ PosInf = NegInf"
| "num_sub _ NegInf = PosInf"

text \<open>\<open>a || b\<close> on numbers: zero and NaN are falsy.\<close>

definition num_or :: "number \<Rightarrow> number \<Rightarrow> number" where
  "num_or a b = (if a = Finite 0 \<or> a = NaN then b else a)"

text \<open>
  What the host provides and the repository does not define: the reading of a string
  by the \<open>Date\<close> constructor, as the calendar date in the local time zone (\<open>None\<close> is
  the invalid date), the conversion of a number to a string, and \<open>toLowerCase\<close>.
\<close>

datatype month = January | February | March | April | May | June | July | August
  | September | October | November | December

record localDate =
  ld_year :: nat
  ld_month :: month
  ld_day :: nat

record host =
  h_parseDate :: "jsstring \<Rightarrow> localDate option"
  h_numberToString :: "number \<Rightarrow> jsstring"
  h_toLowerCase :: "jsstring \<Rightarrow> jsstring"

fun monthName :: "month \<Rightarrow> jsstring" where
  "monthName January = str ''January''"
| "monthName February = str ''February''"
| "monthName March = str ''March''"
| "monthName April = str ''April''"
| "monthName May = str ''May''"
| "monthName June = str ''June''"
| "monthName July = str ''July''"
| "monthName August = str ''August''"
| "monthName September = str ''September''"
| "monthName October = str ''October''"
| "monthName November = str ''November''"
| "monthName December = str ''December''"

fun decimal :: "nat \<Rightarrow> jsstring" where
  "decimal n = (if n < 10 then [48 + n] else decimal (n div 10) @ [48 + n mod 10])"

text \<open>\<open>toLocaleDateString('en-US', {year: 'numeric', month: 'long', day: 'numeric'})\<close>:
  the invalid date is rendered as the text \<open>Invalid Date\<close>; nothing is raised.\<close>

definition toLocaleDateString :: "localDate option \<Rightarrow> jsstring" where
  "toLocaleDateString d =
     (case d of
        None \<Rightarrow> str ''Invalid Date''
      | Some l \<Rightarrow> monthName (ld_month l) @ str '' '' @ decimal (ld_day l) @ str '', ''
                  @ decimal (ld_year l))"

section \<open>Record normalizer\<close>

text \<open>\<open>formatDate\<close>. Neither the \<open>Date\<close> constructor on a string nor
  \<open>toLocaleDateString\<close> with these arguments raises, so the \<open>catch\<close> branch, which
  would return \<open>dateStr\<close>, is never entered.\<close>

definition formatDate :: "host \<Rightarrow> jsstring \<Rightarrow> jsstring" where
  "formatDate h dateStr = toLocaleDateString (h_parseDate h dateStr)"

record ranking =
  rk_system :: jsstring
  rk_value :: number

record acceptanceRate =
  ar_value :: number
  ar_estimated :: bool

record scholarship =
  sch_name :: jsstring
  sch_amount :: jsstring
  sch_url :: "jsstring option"

record RawUniversity =
  raw_rank :: number
  raw_universityName :: jsstring
  raw_cityCountry :: jsstring
  raw_ranking :: ranking
  raw_programs :: "jsstring list"
  raw_programStart :: jsstring
  raw_appDeadline :: jsstring
  raw_acceptanceRate :: acceptanceRate
  raw_acceptanceCriteria :: jsstring
  raw_scholarships :: "scholarship list"
  raw_contact :: jsstring
  raw_url :: jsstring
  raw_imageUrl :: "jsstring option"
  raw_citations :: "jsstring list option"

record RawUniversityData =
  raw_generatedOn :: jsstring
  raw_rankingNote :: jsstring
  raw_universities :: "RawUniversity list"

record parsedRanking = ranking +
  rk_display :: jsstring

record parsedDeadline =
  ad_date :: jsstring
  ad_formatted :: jsstring

record parsedRate = acceptanceRate +
  ar_display :: jsstring

record parsedContact =
  ct_email :: jsstring
  ct_isEmail :: bool

record ParsedUniversity =
  rank :: number
  universityName :: jsstring
  cityCountry :: jsstring
  ranking :: parsedRanking
  programs :: "jsstring list"
  programStart :: jsstring
  appDeadline :: parsedDeadline
  acceptanceRate :: parsedRate
  acceptanceCriteria :: jsstring
  scholarships :: "scholarship list"
  contact :: parsedContact
  url :: jsstring
  imageUrl :: "jsstring option"
  citations :: "jsstring list"

record AppMetadata =
  generatedOn :: jsstring
  rankingNote :: jsstring

record ParsedData =
  universities :: "ParsedUniversity list"
  metadata :: AppMetadata

text \<open>The body of the \<open>map\<close> callback. \<open>isEmail\<close> is given as its result, since the call
  changes the state of the pattern.\<close>

definition parseUniversity :: "host \<Rightarrow> RawUniversity \<Rightarrow> bool \<Rightarrow> ParsedUniversity" where
  "parseUniversity h university contactIsEmail =
     \<lparr>rank = raw_rank university,
      universityName = raw_universityName university,
      cityCountry = raw_cityCountry university,
      ranking = \<lparr>rk_system = rk_system (raw_ranking university),
                 rk_value = rk_value (raw_ranking university),
                 rk_display = rk_system (raw_ranking university) @ str '' #''
                              @ h_numberToString h (rk_value (raw_ranking university))\<rparr>,
      programs = raw_programs university,
      programStart = raw_programStart university,
      appDeadline = \<lparr>ad_date = raw_appDeadline university,
                     ad_formatted = formatDate h (raw_appDeadline university)\<rparr>,
      acceptanceRate = \<lparr>ar_value = ar_value (raw_acceptanceRate university),
                        ar_estimated = ar_estimated (raw_acceptanceRate university),
                        ar_display = h_numberToString h (ar_value (raw_acceptanceRate university))
                          @ str ''%''
                          @ (if ar_estimated (raw_acceptanceRate university) then str '' (est.)''
                             else [])\<rparr>,
      acceptanceCriteria = raw_acceptanceCriteria university,
      scholarships = raw_scholarships university,
      contact = \<lparr>ct_email = raw_contact university, ct_isEmail = contactIsEmail\<rparr>,
      url = raw_url university,
      imageUrl = raw_imageUrl university,
      citations = (case raw_citations university of None \<Rightarrow> [] | Some cs \<Rightarrow> cs)\<rparr>"

text \<open>\<open>rawData.universities.map(...)\<close>: the records in order, the \<open>lastIndex\<close> of the
  email pattern passed from one record to the next.\<close>

fun mapUniversities :: "host \<Rightarrow> RawUniversity list \<Rightarrow> nat \<Rightarrow> ParsedUniversity list \<times> nat" where
  "mapUniversities h [] lastIndex = ([], lastIndex)"
| "mapUniversities h (university # rest) lastIndex =
     (case isEmail (raw_contact university) lastIndex of
        (b, lastIndex') \<Rightarrow>
          (case mapUniversities h rest lastIndex' of
             (ps, lastIndex'') \<Rightarrow> (parseUniversity h university b # ps, lastIndex'')))"

text \<open>The callback of the final \<open>filter\<close>: \<open>uni.universityName && uni.rank > 0\<close>.\<close>

definition keep :: "ParsedUniversity \<Rightarrow> bool" where
  "keep uni = (universityName uni \<noteq> [] \<and> num_gt (rank uni) (Finite 0))"

definition parseUniversityData :: "host \<Rightarrow> RawUniversityData \<Rightarrow> nat \<Rightarrow> ParsedData \<times> nat" where
  "parseUniversityData h rawData lastIndex =
     (case mapUniversities h (raw_universities rawData) lastIndex of
        (ps, lastIndex') \<Rightarrow>
          (\<lparr>universities = filter keep ps,
            metadata = \<lparr>generatedOn = raw_generatedOn rawData,
                        rankingNote = raw_rankingNote rawData\<rparr>\<rparr>, lastIndex'))"

section \<open>Query engine\<close>

text \<open>\<open>String.prototype.includes\<close>: the argument occurs at some index.\<close>

fun startsWith :: "jsstring \<Rightarrow> jsstring \<Rightarrow> bool" where
  "startsWith s [] = True"
| "startsWith [] (y # ys) = False"
| "startsWith (x # xs) (y # ys) = (x = y \<and> startsWith xs ys)"

fun str_includes :: "jsstring \<Rightarrow> jsstring \<Rightarrow> bool" where
  "str_includes [] sub = (sub = [])"
| "str_includes (x # xs) sub = (startsWith (x # xs) sub \<or> str_includes xs sub)"

record FilterCriteria =
  debouncedSearchTerm :: jsstring
  selectedCountry :: jsstring
  rankingRange :: "number \<times> number"
  acceptanceRateRange :: "number \<times> number"
  showAdvancedFilters :: bool

text \<open>The callbacks of the four filters of the \<open>SearchFilters\<close> effect.\<close>

definition matchesSearch :: "host \<Rightarrow> jsstring \<Rightarrow> ParsedUniversity \<Rightarrow> bool" where
  "matchesSearch h searchLower uni =
     (str_includes (h_toLowerCase h (universityName uni)) searchLower \<or>
      str_includes (h_toLowerCase h (cityCountry uni)) searchLower \<or>
      list_ex (\<lambda>program. str_includes (h_toLowerCase h program) searchLower) (programs uni) \<or>
      str_includes (h_toLowerCase h (acceptanceCriteria uni)) searchLower \<or>
      str_includes (h_toLowerCase h (rk_display (ranking uni))) searchLower \<or>
      list_ex (\<lambda>scholarship.
                 str_includes (h_toLowerCase h (sch_name scholarship)) searchLower \<or>
                 str_includes (h_toLowerCase h (sch_amount scholarship)) searchLower)
              (scholarships uni))"

definition inCountry :: "jsstring \<Rightarrow> ParsedUniversity \<Rightarrow> bool" where
  "inCountry country uni = str_includes (cityCountry uni) country"

definition inRankingRange :: "number \<times> number \<Rightarrow> ParsedUniversity \<Rightarrow> bool" where
  "inRankingRange rng uni =
     (num_ge (rank uni) (fst rng) \<and> num_le (rank uni) (snd rng))"

definition inAcceptanceRateRange :: "number \<times> number \<Rightarrow> ParsedUniversity \<Rightarrow> bool" where
  "inAcceptanceRateRange rng uni =
     (num_ge (ar_value (acceptanceRate uni)) (fst rng) \<and>
      num_le (ar_value (acceptanceRate uni)) (snd rng))"

text \<open>The effect that computes the filtered list, one filter after the other.\<close>

definition filterUniversities ::
  "host \<Rightarrow> FilterCriteria \<Rightarrow> ParsedUniversity list \<Rightarrow> ParsedUniversity list" where
  "filterUniversities h c unis =
     (let filtered1 = (if debouncedSearchTerm c \<noteq> []
                       then filter (matchesSearch h (h_toLowerCase h (debouncedSearchTerm c))) unis
                       else unis);
          filtered2 = (if selectedCountry c \<noteq> []
                       then filter (inCountry (selectedCountry c)) filtered1
                       else filtered1);
          filtered3 = filter (inRankingRange (rankingRange c)) filtered2;
          filtered4 = (if showAdvancedFilters c
                       then filter (inAcceptanceRateRange (acceptanceRateRange c)) filtered3
                       else filtered3)
      in filtered4)"

section \<open>Sorting and pagination of the table\<close>

datatype SortableColumn = Col_rank | Col_universityName | Col_cityCountry | Col_ranking
  | Col_programs | Col_programStart | Col_appDeadline | Col_acceptanceRate
  | Col_acceptanceCriteria | Col_scholarships | Col_contact | Col_url | Col_imageUrl
  | Col_citations

datatype SortDirection = Asc | Desc

record SortConfig =
  sc_column :: SortableColumn
  sc_direction :: "SortDirection option"

text \<open>The key of a record in the \<open>acceptanceRate\<close> and \<open>ranking\<close> branches of the
  comparator: \<open>value || 999\<close>.\<close>

definition rateKey :: "ParsedUniversity \<Rightarrow> number" where
  "rateKey uni = num_or (ar_value (acceptanceRate uni)) (Finite 999)"

definition rankingKey :: "ParsedUniversity \<Rightarrow> number" where
  "rankingKey uni = num_or (rk_value (ranking uni)) (Finite 999)"

text \<open>The string that the last branch of the comparator compares, before
  \<open>toLowerCase\<close>: the \<open>date\<close> of the deadline, the string form of an array (its
  elements joined by commas) or of an object, and \<open>String(value || '')\<close> of a
  scalar.\<close>

fun joinComma :: "jsstring list \<Rightarrow> jsstring" where
  "joinComma [] = []"
| "joinComma [x] = x"
| "joinComma (x # xs) = x @ str '','' @ joinComma xs"

definition columnString :: "host \<Rightarrow> SortableColumn \<Rightarrow> ParsedUniversity \<Rightarrow> jsstring" where
  "columnString h col uni =
     (case col of
        Col_rank \<Rightarrow> (if rank uni = Finite 0 \<or> rank uni = NaN then []
                     else h_numberToString h (rank uni))
      | Col_universityName \<Rightarrow> universityName uni
      | Col_cityCountry \<Rightarrow> cityCountry uni
      | Col_ranking \<Rightarrow> str ''[object Object]''
      | Col_programs \<Rightarrow> joinComma (programs uni)
      | Col_programStart \<Rightarrow> programStart uni
      | Col_appDeadline \<Rightarrow> ad_date (appDeadline uni)
      | Col_acceptanceRate \<Rightarrow> str ''[object Object]''
      | Col_acceptanceCriteria \<Rightarrow> acceptanceCriteria uni
      | Col_scholarships \<Rightarrow> joinComma (map (\<lambda>s. str ''[object Object]'') (scholarships uni))
      | Col_contact \<Rightarrow> str ''[object Object]''
      | Col_url \<Rightarrow> url uni
      | Col_imageUrl \<Rightarrow> (case imageUrl uni of None \<Rightarrow> [] | Some i \<Rightarrow> i)
      | Col_citations \<Rightarrow> joinComma (citations uni))"

text \<open>\<open><\<close> on strings: by code units, a proper prefix first.\<close>

fun str_less :: "jsstring \<Rightarrow> jsstring \<Rightarrow> bool" where
  "str_less [] [] = False"
| "str_less [] (y # ys) = True"
| "str_less (x # xs) [] = False"
| "str_less (x # xs) (y # ys) = (x < y \<or> (x = y \<and> str_less xs ys))"

text \<open>The comparator given to \<open>sort\<close>, for a direction that is not null.\<close>

definition compareUniversities ::
  "host \<Rightarrow> SortableColumn \<Rightarrow> SortDirection \<Rightarrow> ParsedUniversity \<Rightarrow> ParsedUniversity \<Rightarrow> number" where
  "compareUniversities h col dir a b =
     (if col = Col_rank then
        (if dir = Asc then num_sub (rank a) (rank b) else num_sub (rank b) (rank a))
      else if col = Col_acceptanceRate then
        (if dir = Asc then num_sub (rateKey a) (rateKey b) else num_sub (rateKey b) (rateKey a))
      else if col = Col_ranking then
        (if dir = Asc then num_sub (rankingKey a) (rankingKey b)
         else num_sub (rankingKey b) (rankingKey a))
      else
        (let aStr = h_toLowerCase h (columnString h col a);
             bStr = h_toLowerCase h (columnString h col b)
         in if str_less aStr bStr then (if dir = Asc then Finite (- 1) else Finite 1)
            else if str_less bStr aStr then (if dir = Asc then Finite 1 else Finite (- 1))
            else Finite 0))"

text \<open>\<open>Array.prototype.sort\<close> is stable and puts \<open>a\<close> after \<open>b\<close> when the comparator is
  positive on them. For a consistent comparator every stable sort gives the order of
  this insertion sort; for another comparator the order is left to the host.\<close>

fun insertBy :: "('a \<Rightarrow> 'a \<Rightarrow> number) \<Rightarrow> 'a \<Rightarrow> 'a list \<Rightarrow> 'a list" where
  "insertBy cmp x [] = [x]"
| "insertBy cmp x (y # ys) =
     (if num_gt (cmp x y) (Finite 0) then y # insertBy cmp x ys else x # y # ys)"

fun sortBy :: "('a \<Rightarrow> 'a \<Rightarrow> number) \<Rightarrow> 'a list \<Rightarrow> 'a list" where
  "sortBy cmp [] = []"
| "sortBy cmp (x # xs) = insertBy cmp x (sortBy cmp xs)"

definition sortedUniversities ::
  "host \<Rightarrow> SortConfig \<Rightarrow> ParsedUniversity list \<Rightarrow> ParsedUniversity list" where
  "sortedUniversities h sortConfig unis =
     (case sc_direction sortConfig of
        None \<Rightarrow> unis
      | Some dir \<Rightarrow> sortBy (compareUniversities h (sc_column sortConfig) dir) unis)"

definition ITEMS_PER_PAGE :: nat where
  "ITEMS_PER_PAGE = 25"

text \<open>\<open>Math.ceil(sortedUniversities.length / ITEMS_PER_PAGE)\<close>; for the length of an
  array the rounding of the quotient does not change its ceiling.\<close>

definition totalPages :: "'a list \<Rightarrow> int" where
  "totalPages rows = \<lceil>(of_nat (length rows) :: rat) / of_nat ITEMS_PER_PAGE\<rceil>"

text \<open>\<open>Array.prototype.slice\<close> with integer bounds: a negative bound counts from the
  end, and both are clamped to the array.\<close>

definition slice :: "'a list \<Rightarrow> int \<Rightarrow> int \<Rightarrow> 'a list" where
  "slice xs start stop =
     (let len = int (length xs);
          k = (if start < 0 then max (len + start) 0 else min start len);
          final = (if stop < 0 then max (len + stop) 0 else min stop len)
      in take (nat (final - k)) (drop (nat k) xs))"

definition startIndex :: "int \<Rightarrow> int" where
  "startIndex currentPage = (currentPage - 1) * int ITEMS_PER_PAGE"

definition paginatedUniversities :: "'a list \<Rightarrow> int \<Rightarrow> 'a list" where
  "paginatedUniversities rows currentPage =
     slice rows (startIndex currentPage) (startIndex currentPage + int ITEMS_PER_PAGE)"

section \<open>A sample host and sample data\<close>

text \<open>
  One possible host, used to evaluate the functions on concrete inputs: its \<open>Date\<close>
  reads the ISO form \<open>YYYY-MM-DD\<close> and nothing else (in the UTC time zone, where the
  local date is the date written), its numbers are printed in decimal, and its
  \<open>toLowerCase\<close> maps the ASCII capitals.
\<close>

definition asciiLower :: "nat \<Rightarrow> nat" where
  "asciiLower c = (if 65 \<le> c \<and> c \<le> 90 then c + 32 else c)"

definition isLeapYear :: "nat \<Rightarrow> bool" where
  "isLeapYear y = (y mod 4 = 0 \<and> (y mod 100 \<noteq> 0 \<or> y mod 400 = 0))"

definition monthOfNumber :: "nat \<Rightarrow> nat \<Rightarrow> (month \<times> nat) option" where
  "monthOfNumber y m =
     (if m = 1 then Some (January, 31)
      else if m = 2 then Some (February, if isLeapYear y then 29 else 28)
      else if m = 3 then Some (March, 31)
      else if m = 4 then Some (April, 30)
      else if m = 5 then Some (May, 31)
      else if m = 6 then Some (June, 30)
      else if m = 7 then Some (July, 31)
      else if m = 8 then Some (August, 31)
      else if m = 9 then Some (September, 30)
      else if m = 10 then Some (October, 31)
      else if m = 11 then Some (November, 30)
      else if m = 12 then Some (December, 31)
      else None)"

fun digitsValue :: "nat \<Rightarrow> jsstring \<Rightarrow> nat option" where
  "digitsValue acc [] = Some acc"
| "digitsValue acc (c # cs) =
     (if isDigit c then digitsValue (acc * 10 + (c - 48)) cs else None)"

definition isoDate :: "jsstring \<Rightarrow> localDate option" where
  "isoDate s =
     (if length s = 10 \<and> take 1 (drop 4 s) = [45] \<and> take 1 (drop 7 s) = [45] then
        (case (digitsValue 0 (take 4 s), digitsValue 0 (take 2 (drop 5 s)),
               digitsValue 0 (drop 8 s)) of
           (Some y, Some m, Some d) \<Rightarrow>
             (case monthOfNumber y m of
                Some (mo, days) \<Rightarrow>
                  (if 1 \<le> d \<and> d \<le> days then Some \<lparr>ld_year = y, ld_month = mo, ld_day = d\<rparr>
                   else None)
              | None \<Rightarrow> None)
         | _ \<Rightarrow> None)
      else None)"

fun fractionDigits :: "nat \<Rightarrow> rat \<Rightarrow> jsstring" where
  "fractionDigits 0 f = []"
| "fractionDigits (Suc k) f =
     (if f = 0 then [] else (48 + nat \<lfloor>f * 10\<rfloor>) # fractionDigits k (f * 10 - of_int \<lfloor>f * 10\<rfloor>))"

definition sampleNumberToString :: "number \<Rightarrow> jsstring" where
  "sampleNumberToString n =
     (case n of
        NaN \<Rightarrow> str ''NaN''
      | PosInf \<Rightarrow> str ''Infinity''
      | NegInf \<Rightarrow> str ''-Infinity''
      | Finite r \<Rightarrow>
          (if r < 0 then str ''-'' else []) @ decimal (nat \<lfloor>\<bar>r\<bar>\<rfloor>)
          @ (if \<bar>r\<bar> = of_int \<lfloor>\<bar>r\<bar>\<rfloor> then []
             else str ''.'' @ fractionDigits 17 (\<bar>r\<bar> - of_int \<lfloor>\<bar>r\<bar>\<rfloor>)))"

definition sampleHost :: host where
  "sampleHost = \<lparr>h_parseDate = isoDate, h_numberToString = sampleNumberToString,
                  h_toLowerCase = map asciiLower\<rparr>"

definition sampleUniversity :: "nat \<Rightarrow> string \<Rightarrow> string \<Rightarrow> string \<Rightarrow> rat \<Rightarrow> RawUniversity" where
  "sampleUniversity r name place mail rate =
     \<lparr>raw_rank = Finite (of_nat r), raw_universityName = str name, raw_cityCountry = str place,
      raw_ranking = \<lparr>rk_system = str ''QS'', rk_value = Finite (of_nat r)\<rparr>,
      raw_programs = [str ''MSc Computer Science''], raw_programStart = str ''2025-09-01'',
      raw_appDeadline = str ''2025-01-15'',
      raw_acceptanceRate = \<lparr>ar_value = Finite rate, ar_estimated = True\<rparr>,
      raw_acceptanceCriteria = str ''GPA 3.5'',
      raw_scholarships = [\<lparr>sch_name = str ''Merit'', sch_amount = str ''5000'', sch_url = None\<rparr>],
      raw_contact = str mail, raw_url = str ''http://example.edu'', raw_imageUrl = None,
      raw_citations = None\<rparr>"

definition sampleData :: RawUniversityData where
  "sampleData =
     \<lparr>raw_generatedOn = str ''2025-01-01'', raw_rankingNote = str ''QS 2025'',
      raw_universities =
        [sampleUniversity 1 ''University of Toronto'' ''Toronto, Canada'' ''grad@utoronto.ca'' 43,
         sampleUniversity 2 [] ''Nowhere'' ''none'' 10,
         sampleUniversity 0 ''ETH Zurich'' ''Zurich, Switzerland'' ''info@ethz.ch'' 27,
         sampleUniversity 4 ''McGill University'' ''Montreal, Canada'' ''see the website'' 0,
         sampleUniversity 5 ''MIT'' ''Cambridge, USA'' ''admissions@mit.edu'' 4]\<rparr>"

definition sampleCriteria :: "string \<Rightarrow> string \<Rightarrow> FilterCriteria" where
  "sampleCriteria term country =
     \<lparr>debouncedSearchTerm = str term, selectedCountry = str country,
      rankingRange = (Finite 1, Finite 10), acceptanceRateRange = (Finite 1, Finite 100),
      showAdvancedFilters = False\<rparr>"

section \<open>Evaluation of the patterns on literals\<close>

lemma Rep_2: "Rep 2 r = Seq r r"
  by (simp add: numeral_2_eq_2)

lemma Rep_4: "Rep 4 r = Seq r (Seq r (Seq r r))"
  by (simp add: numeral_eq_Suc)

lemma escapedOctets_numeral:
  "escapedOctets (numeral k) s =
     (case s of
        p # rest \<Rightarrow>
          (if p = 37 then
             (case hexOctet rest of
                None \<Rightarrow> None
              | Some b \<Rightarrow> (case escapedOctets (pred_numeral k) (drop 2 rest) of
                             None \<Rightarrow> None | Some bs \<Rightarrow> Some (b # bs)))
           else None)
      | [] \<Rightarrow> None)"
  by (simp add: numeral_eq_Suc)

lemmas regex_eval = str_def isWord_def isAlpha_def isDigit_def isSpace_def emailChar_def
  Plus_def Opt_def ch_def ci_def Rep_2 Rep_4 matchAt_def regexTest_def matchFirst_def
  replaceFirst_def trim_def Let_def

lemmas decode_eval = hexVal_def leadingOnes_def utf8CodePoint_def utf16Encode_def
  escapedOctets_numeral

lemma fractionDigits_numeral:
  "fractionDigits (numeral k) f =
     (if f = 0 then []
      else (48 + nat \<lfloor>f * 10\<rfloor>) # fractionDigits (pred_numeral k) (f * 10 - of_int \<lfloor>f * 10\<rfloor>))"
  by (simp add: numeral_eq_Suc)

lemma floor_rat_numeral: "\<lfloor>numeral a / numeral b :: rat\<rfloor> = numeral a div numeral b"
  by (metis floor_divide_of_int_eq of_int_numeral)

lemmas host_eval = sampleHost_def isoDate_def monthOfNumber_def isLeapYear_def asciiLower_def
  sampleNumberToString_def fractionDigits_numeral toLocaleDateString_def formatDate_def
  floor_rat_numeral

lemmas data_eval = sampleData_def sampleUniversity_def parseUniversityData_def parseUniversity_def
  keep_def num_gt_def num_le_def num_ge_def isEmail_def EMAIL_REGEX_def

lemmas filter_eval = filterUniversities_def matchesSearch_def inCountry_def inRankingRange_def
  inAcceptanceRateRange_def sampleCriteria_def

section \<open>The email classification\<close>

text \<open>
  C3. \<open>isEmail\<close> is documented as the check that a string is an email address. The
  pattern it tests is the unanchored extraction pattern, so a string that only contains
  an address is classified as an email address as well: on a fresh pattern
  (\<open>lastIndex\<close> 0) the text \<open>write to a.b@uni.edu today\<close> is accepted, like the address
  \<open>a.b@uni.edu\<close> itself, while \<open>not an email\<close> is rejected.
\<close>

theorem isEmail_accepts_embedded_address:
  "fst (isEmail (str ''write to a.b@uni.edu today'') 0) = True
   \<and> fst (isEmail (str ''a.b@uni.edu'') 0) = True
   \<and> fst (isEmail (str ''not an email'') 0) = False"
  by (simp add: isEmail_def EMAIL_REGEX_def regex_eval)

text \<open>
  C4. The pattern tested by \<open>isEmail\<close> has the global flag, so a successful test leaves
  its \<open>lastIndex\<close> at the end of the match and the next test starts there: the second
  of two successive calls on \<open>a.b@uni.edu\<close> answers false where the first answered
  true. In the normalizer the state passes from one record to the next: of two records
  with this same contact the first is flagged as an email and the second is not.
\<close>

theorem isEmail_second_call_differs:
  "isEmail (str ''a.b@uni.edu'') 0 = (True, 11)
   \<and> isEmail (str ''a.b@uni.edu'') (snd (isEmail (str ''a.b@uni.edu'') 0)) = (False, 0)
   \<and> map (\<lambda>p. ct_isEmail (contact p))
        (fst (mapUniversities h [u\<lparr>raw_contact := str ''a.b@uni.edu''\<rparr>,
                                 u\<lparr>raw_contact := str ''a.b@uni.edu''\<rparr>] 0)) = [True, False]"
  by (simp add: isEmail_def EMAIL_REGEX_def regex_eval parseUniversity_def)

section \<open>The deadline parser\<close>

text \<open>
  C6. For the second date shape the capture group of the pattern holds the month
  abbreviation only, and the date returned is the group, not the whole match: on
  \<open>Jan 2025\<close> the date is \<open>Jan\<close>, and the year is lost (the whole match is removed
  from the notes).
\<close>

theorem parseDeadline_month_year_returns_month:
  "parseDeadline (str ''Jan 2025'')
     = Inr \<lparr>pd_date = Some (str ''Jan''), pd_notes = [], pd_links = []\<rparr>"
  by (simp add: parseDeadline_def extractLinks_def URL_REGEX_def datePatterns_def DATE_ISO_def
        DATE_MON_YEAR_def DATE_LONG_def regex_eval)

section \<open>Link extraction\<close>

text \<open>
  C10. \<open>extractLinks\<close> decodes every matched URL with \<open>decodeURIComponent\<close> and does
  not catch what it raises: on \<open>http://x.com/%E0%A4%A\<close>, where the escape sequence
  breaks off, the call raises \<open>URIError\<close> and returns no result.
\<close>

theorem extractLinks_malformed_escape_raises:
  "extractLinks (str ''http://x.com/%E0%A4%A'') = Inl URIError"
  by (simp add: extractLinks_def URL_REGEX_def regex_eval decode_eval)

section \<open>Pagination\<close>

lemma totalPages_div: "totalPages rows = int ((length rows + 24) div 25)"
proof -
  have "\<lceil>(of_nat (length rows) :: rat) / 25\<rceil> = int ((length rows + 24) div 25)"
    by (simp add: ceiling_unique of_nat_div field_simps)
  then show ?thesis by (simp add: totalPages_def ITEMS_PER_PAGE_def)
qed

text \<open>
  C9, as stated, fails on the empty list: the page count has no minimum, and it is 0
  there.
\<close>

theorem totalPages_empty_counterexample:
  "totalPages ([] :: ParsedUniversity list) = 0 \<and> totalPages ([] :: ParsedUniversity list) \<noteq> 1"
  by (simp add: totalPages_def)

text \<open>
  C9, amended. The page count is the ceiling of the length divided by the page size of
  25, that is the least \<open>p\<close> with \<open>length \<le> 25 * p\<close>: 0 for the empty list and at
  least 1 for any other. For a list of 30 elements the count is 2 and page 2 is the
  elements 26 to 30, five of them.
\<close>

theorem totalPages_ceiling:
  "int (length rows) \<le> int ITEMS_PER_PAGE * totalPages rows
   \<and> int ITEMS_PER_PAGE * totalPages rows < int (length rows) + int ITEMS_PER_PAGE
   \<and> (rows = [] \<longrightarrow> totalPages rows = 0)
   \<and> (rows \<noteq> [] \<longrightarrow> 1 \<le> totalPages rows)
   \<and> (length rows = 30 \<longrightarrow>
        totalPages rows = 2 \<and> paginatedUniversities rows 2 = drop 25 rows
        \<and> length (paginatedUniversities rows 2) = 5)"
proof (cases rows)
  case Nil
  then show ?thesis
    by (simp add: totalPages_div ITEMS_PER_PAGE_def)
next
  case (Cons x xs)
  then show ?thesis
    by (auto simp: totalPages_div paginatedUniversities_def slice_def startIndex_def
        ITEMS_PER_PAGE_def)
qed

theorem totalPages_ceiling_witness:
  "totalPages [1, 2, 3, 4, 5, 6, 7, 8, 9, 10, 11, 12, 13, 14, 15, 16, 17, 18, 19, 20, 21, 22,
               23, 24, 25, 26, 27, 28, 29, 30 :: nat] = 2
   \<and> paginatedUniversities [1, 2, 3, 4, 5, 6, 7, 8, 9, 10, 11, 12, 13, 14, 15, 16, 17, 18, 19,
               20, 21, 22, 23, 24, 25, 26, 27, 28, 29, 30 :: nat] 2 = [26, 27, 28, 29, 30]
   \<and> totalPages [1 :: nat] = 1"
  using totalPages_ceiling [of "[1, 2, 3, 4, 5, 6, 7, 8, 9, 10, 11, 12, 13, 14, 15, 16, 17, 18,
               19, 20, 21, 22, 23, 24, 25, 26, 27, 28, 29, 30 :: nat]"]
        totalPages_ceiling [of "[1 :: nat]"]
  by (simp add: ITEMS_PER_PAGE_def)

section \<open>Date formatting\<close>

text \<open>
  C5. \<open>formatDate\<close> never raises, and a string that the host reads as a date is
  rendered in the long form, month name, day and year. But a string that the host cannot
  read as a date is not returned as it is: the invalid date is rendered as the text
  \<open>Invalid Date\<close>, and the \<open>catch\<close> branch that would return the raw string is never
  entered.
\<close>

theorem formatDate_unparsable:
  "(h_parseDate h dateStr = None \<longrightarrow> formatDate h dateStr = str ''Invalid Date'')
   \<and> (\<forall>d. h_parseDate h dateStr = Some d \<longrightarrow>
          formatDate h dateStr
            = monthName (ld_month d) @ str '' '' @ decimal (ld_day d) @ str '', ''
              @ decimal (ld_year d))"
  by (simp add: formatDate_def toLocaleDateString_def)

theorem formatDate_unparsable_witness:
  "h_parseDate sampleHost (str ''Rolling'') = None
   \<and> formatDate sampleHost (str ''Rolling'') = str ''Invalid Date''
   \<and> formatDate sampleHost (str ''Rolling'') \<noteq> str ''Rolling''
   \<and> formatDate sampleHost (str ''2025-01-15'') = str ''January 15, 2025''"
proof -
  have n: "h_parseDate sampleHost (str ''Rolling'') = None"
    by (simp add: host_eval str_def)
  with formatDate_unparsable [of sampleHost "str ''Rolling''"]
  have i: "formatDate sampleHost (str ''Rolling'') = str ''Invalid Date''"
    by blast
  have d: "h_parseDate sampleHost (str ''2025-01-15'')
      = Some \<lparr>ld_year = 2025, ld_month = January, ld_day = 15\<rparr>"
    by (simp add: host_eval str_def isDigit_def)
  with formatDate_unparsable [of sampleHost "str ''2025-01-15''"]
  have "formatDate sampleHost (str ''2025-01-15'')
      = monthName January @ str '' '' @ decimal 15 @ str '', '' @ decimal 2025"
    by simp
  then have l: "formatDate sampleHost (str ''2025-01-15'') = str ''January 15, 2025''"
    by (simp add: str_def)
  from i have "formatDate sampleHost (str ''Rolling'') \<noteq> str ''Rolling''"
    by (simp add: str_def)
  with n i l show ?thesis by simp
qed

section \<open>The normalizer drops invalid records\<close>

lemma mapUniversities_fields:
  "mapUniversities h raws li = (ps, li') \<Longrightarrow>
   map (\<lambda>u. (universityName u, rank u)) ps
     = map (\<lambda>u. (raw_universityName u, raw_rank u)) raws"
  by (induction raws arbitrary: li ps li')
     (auto simp: parseUniversity_def split: prod.splits)

lemma filter_map_fields:
  "map f (filter (\<lambda>u. P (f u)) xs) = filter P (map f xs)"
  by (induction xs) auto

text \<open>
  C1. The output of the normalizer is no longer than its input, every record of the
  output has a non-empty name and a rank greater than 0, and the names and ranks of
  the output are, in order, those of the input records that satisfy the condition: a
  record that fails it is absent.
\<close>

theorem parseUniversityData_drops_invalid:
  "length (universities (fst (parseUniversityData h rawData li))) \<le> length (raw_universities rawData)
   \<and> (\<forall>uni \<in> set (universities (fst (parseUniversityData h rawData li))).
         universityName uni \<noteq> [] \<and> num_gt (rank uni) (Finite 0))
   \<and> map (\<lambda>u. (universityName u, rank u)) (universities (fst (parseUniversityData h rawData li)))
       = filter (\<lambda>(n, r). n \<noteq> [] \<and> num_gt r (Finite 0))
           (map (\<lambda>u. (raw_universityName u, raw_rank u)) (raw_universities rawData))"
proof -
  obtain ps li' where m: "mapUniversities h (raw_universities rawData) li = (ps, li')"
    by (cases "mapUniversities h (raw_universities rawData) li")
  have out: "universities (fst (parseUniversityData h rawData li)) = filter keep ps"
    by (simp add: parseUniversityData_def m)
  have fields: "map (\<lambda>u. (universityName u, rank u)) ps
      = map (\<lambda>u. (raw_universityName u, raw_rank u)) (raw_universities rawData)"
    using m by (rule mapUniversities_fields)
  then have "length ps = length (raw_universities rawData)"
    by (metis length_map)
  then have len: "length (filter keep ps) \<le> length (raw_universities rawData)"
    by (metis length_filter_le)
  have "map (\<lambda>u. (universityName u, rank u)) (filter keep ps)
      = filter (\<lambda>(n, r). n \<noteq> [] \<and> num_gt r (Finite 0)) (map (\<lambda>u. (universityName u, rank u)) ps)"
    using filter_map_fields [of "\<lambda>u. (universityName u, rank u)"
        "\<lambda>(n, r). n \<noteq> [] \<and> num_gt r (Finite 0)" ps]
    by (simp add: keep_def [abs_def])
  with fields len out show ?thesis
    by (simp add: keep_def)
qed


theorem parseUniversityData_drops_invalid_witness:
  "map universityName (universities (fst (parseUniversityData sampleHost sampleData 0)))
     = [str ''University of Toronto'', str ''McGill University'', str ''MIT'']
   \<and> map (\<lambda>u. ad_formatted (appDeadline u)) (universities (fst (parseUniversityData sampleHost sampleData 0)))
     = [str ''January 15, 2025'', str ''January 15, 2025'', str ''January 15, 2025'']"
  using parseUniversityData_drops_invalid [of sampleHost sampleData 0]
  by (simp add: data_eval regex_eval host_eval)

section \<open>Filtering\<close>

lemma startsWith_iff: "startsWith s sub \<longleftrightarrow> (\<exists>post. s = sub @ post)"
  by (induction s sub rule: startsWith.induct) auto

lemma str_includes_iff: "str_includes s sub \<longleftrightarrow> (\<exists>pre post. s = pre @ sub @ post)"
proof (induction s)
  case Nil
  then show ?case by auto
next
  case (Cons x xs)
  show ?case
  proof
    assume "str_includes (x # xs) sub"
    then consider "startsWith (x # xs) sub" | "str_includes xs sub" by auto
    then show "\<exists>pre post. x # xs = pre @ sub @ post"
    proof cases
      case 1
      then obtain post where "x # xs = sub @ post" by (auto simp: startsWith_iff)
      then have "x # xs = [] @ sub @ post" by simp
      then show ?thesis by blast
    next
      case 2
      with Cons.IH obtain pre post where "xs = pre @ sub @ post" by blast
      then have "x # xs = (x # pre) @ sub @ post" by simp
      then show ?thesis by blast
    qed
  next
    assume "\<exists>pre post. x # xs = pre @ sub @ post"
    then obtain pre post where e: "x # xs = pre @ sub @ post" by blast
    show "str_includes (x # xs) sub"
    proof (cases pre)
      case Nil
      with e have "startsWith (x # xs) sub" by (auto simp: startsWith_iff)
      then show ?thesis by simp
    next
      case (Cons p pre')
      with e have "xs = pre' @ sub @ post" by simp
      with Cons.IH have "str_includes xs sub" by blast
      then show ?thesis by simp
    qed
  qed
qed

text \<open>
  C2. The filtered list is the input list filtered by the conjunction of the active
  predicates: the search (when a term is given), the country (when one is selected:
  \<open>cityCountry\<close> contains it as a substring), the rank range, and the acceptance-rate
  range (in advanced mode). With a selected country a record is returned exactly when
  its \<open>cityCountry\<close> contains the country and the record is returned without the
  country constraint. With no country the result is the list filtered by the other
  predicates only.
\<close>

theorem filterUniversities_conjunction:
  "filterUniversities h c unis
     = filter (\<lambda>uni. (debouncedSearchTerm c \<noteq> [] \<longrightarrow>
                        matchesSearch h (h_toLowerCase h (debouncedSearchTerm c)) uni)
                   \<and> (selectedCountry c \<noteq> [] \<longrightarrow>
                        (\<exists>pre post. cityCountry uni = pre @ selectedCountry c @ post))
                   \<and> inRankingRange (rankingRange c) uni
                   \<and> (showAdvancedFilters c \<longrightarrow>
                        inAcceptanceRateRange (acceptanceRateRange c) uni)) unis
   \<and> (selectedCountry c \<noteq> [] \<longrightarrow>
        (\<forall>uni. uni \<in> set (filterUniversities h c unis) \<longleftrightarrow>
           (\<exists>pre post. cityCountry uni = pre @ selectedCountry c @ post)
           \<and> uni \<in> set (filterUniversities h (c\<lparr>selectedCountry := []\<rparr>) unis)))
   \<and> (selectedCountry c = [] \<longrightarrow>
        filterUniversities h c unis
          = filter (\<lambda>uni. (debouncedSearchTerm c \<noteq> [] \<longrightarrow>
                             matchesSearch h (h_toLowerCase h (debouncedSearchTerm c)) uni)
                        \<and> inRankingRange (rankingRange c) uni
                        \<and> (showAdvancedFilters c \<longrightarrow>
                             inAcceptanceRateRange (acceptanceRateRange c) uni)) unis)"
  by (auto simp: filterUniversities_def Let_def inCountry_def str_includes_iff
           intro!: filter_cong)

theorem filterUniversities_conjunction_witness:
  "selectedCountry (sampleCriteria [] ''Canada'') \<noteq> []
   \<and> map universityName
     (filterUniversities sampleHost (sampleCriteria [] ''Canada'')
        (universities (fst (parseUniversityData sampleHost sampleData 0))))
     = [str ''University of Toronto'', str ''McGill University'']
   \<and> (\<forall>uni. uni \<in> set (filterUniversities sampleHost (sampleCriteria [] ''Canada'')
                     (universities (fst (parseUniversityData sampleHost sampleData 0)))) \<longleftrightarrow>
           (\<exists>pre post. cityCountry uni = pre @ selectedCountry (sampleCriteria [] ''Canada'') @ post)
           \<and> uni \<in> set (filterUniversities sampleHost
                            ((sampleCriteria [] ''Canada'')\<lparr>selectedCountry := []\<rparr>)
                            (universities (fst (parseUniversityData sampleHost sampleData 0)))))"
proof -
  have c: "selectedCountry (sampleCriteria [] ''Canada'') \<noteq> []"
    by (simp add: sampleCriteria_def str_def)
  have e: "map universityName
     (filterUniversities sampleHost (sampleCriteria [] ''Canada'')
        (universities (fst (parseUniversityData sampleHost sampleData 0))))
     = [str ''University of Toronto'', str ''McGill University'']"
    by (simp add: filter_eval data_eval regex_eval host_eval)
  from c filterUniversities_conjunction [of sampleHost "sampleCriteria [] ''Canada''"
          "universities (fst (parseUniversityData sampleHost sampleData 0))"]
  have "\<forall>uni. uni \<in> set (filterUniversities sampleHost (sampleCriteria [] ''Canada'')
                     (universities (fst (parseUniversityData sampleHost sampleData 0)))) \<longleftrightarrow>
           (\<exists>pre post. cityCountry uni = pre @ selectedCountry (sampleCriteria [] ''Canada'') @ post)
           \<and> uni \<in> set (filterUniversities sampleHost
                            ((sampleCriteria [] ''Canada'')\<lparr>selectedCountry := []\<rparr>)
                            (universities (fst (parseUniversityData sampleHost sampleData 0))))"
    by blast
  with c e show ?thesis by blast
qed

section \<open>Sorting by acceptance rate\<close>

text \<open>
  C8. The key of a record in the \<open>acceptanceRate\<close> branch of the comparator is
  \<open>value || 999\<close>, and 0 is falsy: a record with the present value 0 is compared as
  999, so in ascending order it comes after a record with the value 50.
\<close>

theorem rateKey_zero_is_999:
  "rateKey (u\<lparr>acceptanceRate := (acceptanceRate u)\<lparr>ar_value := Finite 0\<rparr>\<rparr>) = Finite 999
   \<and> compareUniversities h Col_acceptanceRate Asc
        (u\<lparr>acceptanceRate := (acceptanceRate u)\<lparr>ar_value := Finite 0\<rparr>\<rparr>)
        (u\<lparr>acceptanceRate := (acceptanceRate u)\<lparr>ar_value := Finite 50\<rparr>\<rparr>) = Finite 949
   \<and> sortedUniversities h \<lparr>sc_column = Col_acceptanceRate, sc_direction = Some Asc\<rparr>
        [u\<lparr>acceptanceRate := (acceptanceRate u)\<lparr>ar_value := Finite 0\<rparr>\<rparr>,
         u\<lparr>acceptanceRate := (acceptanceRate u)\<lparr>ar_value := Finite 50\<rparr>\<rparr>]
       = [u\<lparr>acceptanceRate := (acceptanceRate u)\<lparr>ar_value := Finite 50\<rparr>\<rparr>,
          u\<lparr>acceptanceRate := (acceptanceRate u)\<lparr>ar_value := Finite 0\<rparr>\<rparr>]"
  by (simp add: rateKey_def num_or_def compareUniversities_def sortedUniversities_def num_gt_def)

section \<open>Link extraction removes the URLs\<close>

text \<open>What the matcher computes on the URL pattern: a closed form of the first match
  at the start of a string.\<close>

lemma ms_lit:
  "ms (lit cs) (s, c) = (if take (length cs) s = str cs then [(drop (length cs) s, c)] else [])"
proof (induction cs arbitrary: s rule: lit.induct)
  case 1
  then show ?case by (simp add: str_def)
next
  case (2 x)
  then show ?case by (cases s) (auto simp: str_def ch_def)
next
  case (3 x y zs)
  then show ?case by (cases s) (auto simp: str_def ch_def)
qed

lemma ms_Star_Cls:
  "ms (Star (Cls P)) (s, c) = map (\<lambda>k. (drop k s, c)) (rev [0 ..< Suc (length (takeWhile P s))])"
proof (induction s)
  case Nil
  then show ?case by simp
next
  case (Cons x xs)
  show ?case
  proof (cases "P x")
    case True
    have "map (\<lambda>k. (drop k (x # xs), c)) (rev [0 ..< Suc (Suc (length (takeWhile P xs)))])
        = map (\<lambda>k. (drop k xs, c)) (rev [0 ..< Suc (length (takeWhile P xs))]) @ [(x # xs, c)]"
      by (simp add: upt_rec [of 0] map_Suc_upt [symmetric] rev_map del: upt_Suc)
    with True Cons show ?thesis by simp
  next
    case False
    then show ?thesis by simp
  qed
qed

lemma ms_Plus_Cls:
  "ms (Plus (Cls P)) (s, c) =
     (case s of [] \<Rightarrow> []
      | x # xs \<Rightarrow> if P x then map (\<lambda>k. (drop k xs, c)) (rev [0 ..< Suc (length (takeWhile P xs))])
                  else [])"
  by (cases s) (simp_all add: Plus_def ms_Star_Cls del: ms.simps(5))



lemma concat_map_concat:
  "concat (map f (concat (map g xs))) = concat (map (\<lambda>x. concat (map f (g x))) xs)"
  by (induction xs) simp_all

lemma ms_Seq_assoc: "ms (Seq (Seq a b) c) st = ms (Seq a (Seq b c)) st"
proof -
  have "ms (Seq b c) = (\<lambda>x. concat (map (ms c) (ms b x)))"
    by (rule ext) simp
  then show ?thesis
    by (simp add: concat_map_concat)
qed

lemma ms_Seq_ch:
  "ms (Seq (ch x) r) (s, c) =
     (case s of [] \<Rightarrow> [] | y # ys \<Rightarrow> if y = of_char x then ms r (ys, c) else [])"
  by (cases s) (simp_all add: ch_def)

lemma ms_Seq_Opt: "ms (Seq (Opt a) r) st = ms (Seq a r) st @ ms r st"
  by (simp add: Opt_def)

lemma matchAt_URL:
  "matchAt URL_REGEX s =
     (if take 8 s = str ''https://'' \<and> drop 8 s \<noteq> [] \<and> \<not> isSpace (hd (drop 8 s))
      then Some (8 + length (takeWhile (\<lambda>x. \<not> isSpace x) (drop 8 s)), None)
      else if take 7 s = str ''http://'' \<and> drop 7 s \<noteq> [] \<and> \<not> isSpace (hd (drop 7 s))
      then Some (7 + length (takeWhile (\<lambda>x. \<not> isSpace x) (drop 7 s)), None)
      else None)"
proof -
  have le: "\<And>xs. length (takeWhile (\<lambda>x. \<not> isSpace x) xs) \<le> length xs"
    by (rule length_takeWhile_le)
  have ms: "ms URL_REGEX (s, None) =
    (case s of [] \<Rightarrow> [] | y # ys \<Rightarrow> if y = 104 then
     (case ys of [] \<Rightarrow> [] | y # ys \<Rightarrow> if y = 116 then
     (case ys of [] \<Rightarrow> [] | y # ys \<Rightarrow> if y = 116 then
     (case ys of [] \<Rightarrow> [] | y # ys \<Rightarrow> if y = 112 then
       (case ys of [] \<Rightarrow> [] | y # zs \<Rightarrow> if y = 115 then
         (case zs of [] \<Rightarrow> [] | y # zs \<Rightarrow> if y = 58 then
         (case zs of [] \<Rightarrow> [] | y # zs \<Rightarrow> if y = 47 then
         (case zs of [] \<Rightarrow> [] | y # zs \<Rightarrow> if y = 47 then
            ms (Plus (Cls (\<lambda>x. \<not> isSpace x))) (zs, None) else []) else []) else []) else [])
       @ (case ys of [] \<Rightarrow> [] | y # zs \<Rightarrow> if y = 58 then
         (case zs of [] \<Rightarrow> [] | y # zs \<Rightarrow> if y = 47 then
         (case zs of [] \<Rightarrow> [] | y # zs \<Rightarrow> if y = 47 then
            ms (Plus (Cls (\<lambda>x. \<not> isSpace x))) (zs, None) else []) else []) else [])
     else []) else []) else []) else [])"
    by (simp add: URL_REGEX_def ms_Seq_assoc ms_Seq_ch ms_Seq_Opt del: ms.simps(3)
          cong: list.case_cong if_cong)
  show ?thesis
    unfolding matchAt_def ms ms_Plus_Cls
    using le
    by (auto simp: str_def split: list.splits)
qed


lemma matchAt_URL_space: "isSpace x \<Longrightarrow> matchAt URL_REGEX (x # xs) = None"
proof -
  assume "isSpace x"
  then have "x \<noteq> 104" by (auto simp: isSpace_def)
  then show ?thesis by (simp add: matchAt_URL str_def)
qed

lemma matchAt_URL_group: "matchAt URL_REGEX s = Some (n, g) \<Longrightarrow> g = None"
  by (simp add: matchAt_URL split: if_splits)

lemma run_props:
  "v \<noteq> [] \<Longrightarrow> P (hd v) \<Longrightarrow>
     takeWhile P v \<noteq> [] \<and> (\<forall>x \<in> set (takeWhile P v). P x)
     \<and> (dropWhile P v = [] \<or> \<not> P (hd (dropWhile P v)))"
proof (cases v)
  case Nil
  assume "v \<noteq> []"
  with Nil show ?thesis by simp
next
  case (Cons a w)
  assume "P (hd v)"
  with Cons have a: "P a" by simp
  have "dropWhile P v = [] \<or> \<not> P (hd (dropWhile P v))"
    by (metis hd_dropWhile)
  with a Cons show ?thesis by (auto dest: set_takeWhileD)
qed


lemma take_scheme:
  "length p = k \<Longrightarrow> take (k + length (takeWhile P v)) (p @ v) = p @ takeWhile P v"
proof -
  assume "length p = k"
  then have "take (k + length (takeWhile P v)) (p @ v) = p @ take (length (takeWhile P v)) v"
    by simp
  also have "take (length (takeWhile P v)) v = takeWhile P v"
    by (rule takeWhile_eq_take [symmetric])
  finally show ?thesis .
qed

lemma drop_scheme:
  "length p = k \<Longrightarrow> drop (k + length (takeWhile P v)) (p @ v) = dropWhile P v"
proof -
  assume "length p = k"
  then have "drop (k + length (takeWhile P v)) (p @ v) = drop (length (takeWhile P v)) v"
    by simp
  also have "drop (length (takeWhile P v)) v = dropWhile P v"
    by (rule dropWhile_eq_drop [symmetric])
  finally show ?thesis .
qed

lemma matchAt_URL_shape:
  assumes "matchAt URL_REGEX s = Some (n, g)"
  shows "\<exists>scheme run. (scheme = str ''http://'' \<or> scheme = str ''https://'')
           \<and> take n s = scheme @ run \<and> run \<noteq> [] \<and> (\<forall>x \<in> set run. \<not> isSpace x)
           \<and> (drop n s = [] \<or> isSpace (hd (drop n s)))"
proof -
  let ?P = "\<lambda>x. \<not> isSpace x"
  from assms consider
      (https) "take 8 s = str ''https://''" "drop 8 s \<noteq> []" "?P (hd (drop 8 s))"
        "n = 8 + length (takeWhile ?P (drop 8 s))"
    | (http) "take 7 s = str ''http://''" "drop 7 s \<noteq> []" "?P (hd (drop 7 s))"
        "n = 7 + length (takeWhile ?P (drop 7 s))"
    by (auto simp: matchAt_URL split: if_splits)
  then show ?thesis
  proof cases
    case https
    define v where "v = drop 8 s"
    have s: "s = str ''https://'' @ v"
      unfolding v_def using https(1) by (metis append_take_drop_id)
    have len: "length (str ''https://'') = 8" by (simp add: str_def)
    have n: "n = 8 + length (takeWhile ?P v)" using https(4) by (simp add: v_def)
    have t: "take n s = str ''https://'' @ takeWhile ?P v"
      unfolding s n using len by (rule take_scheme)
    have d: "drop n s = dropWhile ?P v"
      unfolding s n using len by (rule drop_scheme)
    have "v \<noteq> []" "?P (hd v)" using https(2,3) by (simp_all add: v_def)
    from run_props [of v ?P, OF this] t d show ?thesis by auto
  next
    case http
    define v where "v = drop 7 s"
    have s: "s = str ''http://'' @ v"
      unfolding v_def using http(1) by (metis append_take_drop_id)
    have len: "length (str ''http://'') = 7" by (simp add: str_def)
    have n: "n = 7 + length (takeWhile ?P v)" using http(4) by (simp add: v_def)
    have t: "take n s = str ''http://'' @ takeWhile ?P v"
      unfolding s n using len by (rule take_scheme)
    have d: "drop n s = dropWhile ?P v"
      unfolding s n using len by (rule drop_scheme)
    have "v \<noteq> []" "?P (hd v)" using http(2,3) by (simp_all add: v_def)
    from run_props [of v ?P, OF this] t d show ?thesis by auto
  qed
qed

lemma search_SomeD:
  "search r s = Some (i, n, g) \<Longrightarrow>
     i \<le> length s \<and> matchAt r (drop i s) = Some (n, g) \<and> (\<forall>j<i. matchAt r (drop j s) = None)"
proof (induction s arbitrary: i)
  case Nil
  then show ?case by (auto split: option.splits)
next
  case (Cons x xs)
  show ?case
  proof (cases "matchAt r (x # xs)")
    case (Some a)
    with Cons.prems show ?thesis by auto
  next
    case None
    with Cons.prems obtain i' where i': "search r xs = Some (i', n, g)" "i = Suc i'"
      by (auto split: option.splits)
    from Cons.IH [OF i'(1)] have ih: "i' \<le> length xs" "matchAt r (drop i' xs) = Some (n, g)"
      "\<forall>j<i'. matchAt r (drop j xs) = None" by auto
    have "\<forall>j<i. matchAt r (drop j (x # xs)) = None"
    proof (intro allI impI)
      fix j assume "j < i"
      then show "matchAt r (drop j (x # xs)) = None"
        using None ih(3) i'(2) by (cases j) auto
    qed
    with ih i'(2) show ?thesis by simp
  qed
qed

lemma search_NoneI:
  "(\<And>j. matchAt r (drop j s) = None) \<Longrightarrow> search r s = None"
proof (induction s)
  case Nil
  from Nil [of 0] show ?case by simp
next
  case (Cons x xs)
  have "\<And>j. matchAt r (drop j xs) = None"
    using Cons.prems [of "Suc j" for j] by simp
  then have "search r xs = None" by (rule Cons.IH)
  moreover have "matchAt r (x # xs) = None" using Cons.prems [of 0] by simp
  ultimately show ?case by simp
qed

lemma search_NoneD:
  "search r s = None \<Longrightarrow> j \<le> length s \<Longrightarrow> matchAt r (drop j s) = None"
proof (induction s arbitrary: j)
  case Nil
  then show ?case by (auto split: option.splits)
next
  case (Cons x xs)
  then show ?case by (cases j) (auto split: option.splits)
qed

lemma matchAt_URL_Nil: "matchAt URL_REGEX [] = None"
  by (simp add: matchAt_URL str_def)

lemma search_URL_NoneD: "search URL_REGEX s = None \<Longrightarrow> matchAt URL_REGEX (drop j s) = None"
  by (cases "j \<le> length s") (simp_all add: search_NoneD matchAt_URL_Nil)

lemma matchAt_URL_pos: "matchAt URL_REGEX s = Some (n, g) \<Longrightarrow> 0 < n"
  by (auto simp: matchAt_URL split: if_splits)

lemma urlStart_iff: "matchAt URL_REGEX s \<noteq> None \<longleftrightarrow> urlStart s"
proof
  assume "matchAt URL_REGEX s \<noteq> None"
  then consider "take 8 s = str ''https://''" "drop 8 s \<noteq> []" "\<not> isSpace (hd (drop 8 s))"
    | "take 7 s = str ''http://''" "drop 7 s \<noteq> []" "\<not> isSpace (hd (drop 7 s))"
    by (auto simp: matchAt_URL split: if_splits)
  then show "urlStart s"
  proof cases
    case 1
    then have "s = str ''https://'' @ hd (drop 8 s) # tl (drop 8 s)"
      by (metis append_take_drop_id list.collapse)
    with 1(3) show ?thesis unfolding urlStart_def by blast
  next
    case 2
    then have "s = str ''http://'' @ hd (drop 7 s) # tl (drop 7 s)"
      by (metis append_take_drop_id list.collapse)
    with 2(3) show ?thesis unfolding urlStart_def by blast
  qed
next
  assume "urlStart s"
  then obtain scheme x rest where s: "s = scheme @ x # rest" "\<not> isSpace x"
    and "scheme = str ''http://'' \<or> scheme = str ''https://''"
    unfolding urlStart_def by blast
  then show "matchAt URL_REGEX s \<noteq> None"
    by (auto simp: matchAt_URL str_def)
qed

lemma scheme_nonSpace:
  "scheme = str ''http://'' \<or> scheme = str ''https://'' \<Longrightarrow> \<forall>c \<in> set scheme. \<not> isSpace c"
  by (auto simp: str_def isSpace_def)

lemma urlStart_append: "urlStart s \<Longrightarrow> urlStart (s @ w)"
  unfolding urlStart_def by (metis append.assoc append_Cons)

lemma urlStart_takeWhile: "urlStart s \<Longrightarrow> urlStart (takeWhile (\<lambda>x. \<not> isSpace x) s)"
proof -
  assume "urlStart s"
  then obtain scheme x rest where s: "s = scheme @ x # rest" "\<not> isSpace x"
    and sc: "scheme = str ''http://'' \<or> scheme = str ''https://''"
    unfolding urlStart_def by blast
  from scheme_nonSpace [OF sc] s
  have "takeWhile (\<lambda>x. \<not> isSpace x) s = scheme @ x # takeWhile (\<lambda>x. \<not> isSpace x) rest"
    by (simp add: takeWhile_append2)
  with s(2) sc show ?thesis unfolding urlStart_def by blast
qed

lemma urlStart_of_takeWhile: "urlStart (takeWhile P s) \<Longrightarrow> urlStart s"
  using urlStart_append [of "takeWhile P s" "dropWhile P s"] by simp

lemma takeWhile_append_stop:
  "q = [] \<or> \<not> P (hd q) \<Longrightarrow> takeWhile P (p @ q) = takeWhile P p"
  by (induction p) (auto simp: takeWhile_eq_Nil_iff neq_Nil_conv)

lemma urlStart_cut:
  assumes "urlStart (p @ q)" and "q = [] \<or> isSpace (hd q)"
  shows "urlStart p"
proof -
  from assms(1) have "urlStart (takeWhile (\<lambda>x. \<not> isSpace x) (p @ q))"
    by (rule urlStart_takeWhile)
  moreover from assms(2) have "takeWhile (\<lambda>x. \<not> isSpace x) (p @ q) = takeWhile (\<lambda>x. \<not> isSpace x) p"
    by (intro takeWhile_append_stop) auto
  ultimately show ?thesis by (simp add: urlStart_of_takeWhile)
qed

text \<open>The equations of the two loops are unfolded by hand from here on.\<close>

declare replaceGlobal.simps [simp del] matchGlobal.simps [simp del]

lemma replaceGlobal_URL:
  "replaceGlobal URL_REGEX [] s =
     (case search URL_REGEX s of None \<Rightarrow> s
      | Some (i, n, g) \<Rightarrow> take i s @ replaceGlobal URL_REGEX [] (drop (i + n) s))"
  by (subst replaceGlobal.simps)
     (auto split: option.splits dest!: search_SomeD matchAt_URL_pos)

lemma matchGlobal_URL:
  "matchGlobal URL_REGEX s =
     (case search URL_REGEX s of None \<Rightarrow> []
      | Some (i, n, g) \<Rightarrow> take n (drop i s) # matchGlobal URL_REGEX (drop (i + n) s))"
  by (subst matchGlobal.simps)
     (auto split: option.splits dest!: search_SomeD matchAt_URL_pos)

lemma search_URL_space:
  "isSpace x \<Longrightarrow> search URL_REGEX (x # xs) =
     (case search URL_REGEX xs of None \<Rightarrow> None | Some (i, n, g) \<Rightarrow> Some (Suc i, n, g))"
  by (simp add: matchAt_URL_space)

lemma replaceGlobal_URL_space:
  assumes "isSpace x"
  shows "replaceGlobal URL_REGEX [] (x # xs) = x # replaceGlobal URL_REGEX [] xs"
proof (cases "search URL_REGEX xs")
  case None
  with assms have "search URL_REGEX (x # xs) = None"
    by (simp add: matchAt_URL_space)
  then have "replaceGlobal URL_REGEX [] (x # xs) = x # xs"
    by (subst replaceGlobal_URL) simp
  moreover from None have "replaceGlobal URL_REGEX [] xs = xs"
    by (subst replaceGlobal_URL) simp
  ultimately show ?thesis by simp
next
  case (Some a)
  obtain i n g where a: "a = (i, n, g)" by (cases a)
  with assms Some have "search URL_REGEX (x # xs) = Some (Suc i, n, g)"
    by (simp add: matchAt_URL_space)
  then have "replaceGlobal URL_REGEX [] (x # xs)
      = take (Suc i) (x # xs) @ replaceGlobal URL_REGEX [] (drop (Suc i + n) (x # xs))"
    by (subst replaceGlobal_URL) simp
  moreover from Some a have "replaceGlobal URL_REGEX [] xs
      = take i xs @ replaceGlobal URL_REGEX [] (drop (i + n) xs)"
    by (subst replaceGlobal_URL) simp
  ultimately show ?thesis by simp
qed

lemma replaceGlobal_URL_hd:
  "s = [] \<or> isSpace (hd s) \<Longrightarrow>
     replaceGlobal URL_REGEX [] s = [] \<or> isSpace (hd (replaceGlobal URL_REGEX [] s))"
proof (cases s)
  case Nil
  then show ?thesis by (subst replaceGlobal_URL) (simp add: matchAt_URL_Nil)
next
  case (Cons x xs)
  assume "s = [] \<or> isSpace (hd s)"
  with Cons show ?thesis by (simp add: replaceGlobal_URL_space)
qed


lemma replaceGlobal_URL_clean:
  "matchAt URL_REGEX (drop j (replaceGlobal URL_REGEX [] s)) = None"
proof (induction s arbitrary: j rule: length_induct)
  case (1 s)
  show ?case
  proof (cases "search URL_REGEX s")
    case None
    then have "replaceGlobal URL_REGEX [] s = s"
      by (subst replaceGlobal_URL) simp
    with None show ?thesis by (simp add: search_URL_NoneD)
  next
    case (Some a)
    obtain i n g where a: "a = (i, n, g)" by (cases a)
    let ?s' = "drop (i + n) s"
    let ?R = "replaceGlobal URL_REGEX [] ?s'"
    from Some a have sr: "search URL_REGEX s = Some (i, n, g)" by simp
    from search_SomeD [OF sr] have i: "i \<le> length s"
      and m: "matchAt URL_REGEX (drop i s) = Some (n, g)"
      and least: "\<forall>j<i. matchAt URL_REGEX (drop j s) = None" by auto
    from matchAt_URL_pos [OF m] have n: "0 < n" .
    from search_length [OF sr] have "i + n \<le> length s" .
    with n have "length ?s' < length s" by simp
    with "1.IH" have ih: "\<And>k. matchAt URL_REGEX (drop k ?R) = None" by blast
    from matchAt_URL_shape [OF m] have "drop n (drop i s) = [] \<or> isSpace (hd (drop n (drop i s)))"
      by blast
    then have "?s' = [] \<or> isSpace (hd ?s')" by (simp add: add.commute)
    then have stop: "?R = [] \<or> isSpace (hd ?R)" by (rule replaceGlobal_URL_hd)
    have r: "replaceGlobal URL_REGEX [] s = take i s @ ?R"
      using sr by (subst replaceGlobal_URL) simp
    show ?thesis
    proof (cases "j < i")
      case False
      with i have "drop j (take i s @ ?R) = drop (j - i) ?R" by simp
      with ih r show ?thesis by simp
    next
      case True
      let ?p = "drop j (take i s)"
      from True i have d: "drop j (take i s @ ?R) = ?p @ ?R" by simp
      have pd: "?p @ drop i s = drop j s"
        using drop_append [of j "take i s" "drop i s"] True i by simp
      from least True have none: "matchAt URL_REGEX (drop j s) = None" by simp
      have "matchAt URL_REGEX (?p @ ?R) = None"
      proof (rule ccontr)
        assume "matchAt URL_REGEX (?p @ ?R) \<noteq> None"
        then have "urlStart (?p @ ?R)" by (rule urlStart_iff [THEN iffD1])
        then have "urlStart ?p" using stop by (rule urlStart_cut)
        then have "urlStart (?p @ drop i s)" by (rule urlStart_append)
        then have "urlStart (drop j s)" by (simp only: pd)
        then have "matchAt URL_REGEX (drop j s) \<noteq> None" by (rule urlStart_iff [THEN iffD2])
        with none show False by simp
      qed
      with d r show ?thesis by simp
    qed
  qed
qed

lemma trim_split: "\<exists>w. dropWhile isSpace s = trim s @ w"
proof -
  have "rev (dropWhile isSpace s)
      = takeWhile isSpace (rev (dropWhile isSpace s)) @ dropWhile isSpace (rev (dropWhile isSpace s))"
    by simp
  then have "dropWhile isSpace s
      = rev (dropWhile isSpace (rev (dropWhile isSpace s)))
        @ rev (takeWhile isSpace (rev (dropWhile isSpace s)))"
    by (metis rev_append rev_rev_ident)
  then show ?thesis unfolding trim_def by blast
qed

lemma trim_ends: "trim s = [] \<or> (\<not> isSpace (hd (trim s)) \<and> \<not> isSpace (last (trim s)))"
proof (cases "trim s = []")
  case True
  then show ?thesis by simp
next
  case False
  obtain w where w: "dropWhile isSpace s = trim s @ w" using trim_split by blast
  with False have "hd (trim s) = hd (dropWhile isSpace s)" by simp
  moreover from w False have "dropWhile isSpace s \<noteq> []" by auto
  ultimately have h: "\<not> isSpace (hd (trim s))" by (simp add: hd_dropWhile)
  from False have ne: "dropWhile isSpace (rev (dropWhile isSpace s)) \<noteq> []"
    by (simp add: trim_def)
  have "last (trim s) = hd (dropWhile isSpace (rev (dropWhile isSpace s)))"
    using ne by (simp add: trim_def last_rev)
  with ne have "\<not> isSpace (last (trim s))" by (simp add: hd_dropWhile)
  with h show ?thesis by simp
qed

lemma trim_clean:
  assumes "\<And>j. matchAt URL_REGEX (drop j s) = None"
  shows "search URL_REGEX (trim s) = None"
proof (rule search_NoneI)
  fix j
  obtain w where w: "dropWhile isSpace s = trim s @ w" using trim_split by blast
  show "matchAt URL_REGEX (drop j (trim s)) = None"
  proof (cases "j \<le> length (trim s)")
    case False
    then show ?thesis by (simp add: matchAt_URL_Nil)
  next
    case True
    let ?k = "length (takeWhile isSpace s)"
    have "drop (?k + j) s = drop j (dropWhile isSpace s)"
      by (simp add: dropWhile_eq_drop add.commute)
    also have "\<dots> = drop j (trim s) @ w" using True w by simp
    finally have e: "drop (?k + j) s = drop j (trim s) @ w" .
    show ?thesis
    proof (rule ccontr)
      assume "matchAt URL_REGEX (drop j (trim s)) \<noteq> None"
      then have "urlStart (drop j (trim s))" by (rule urlStart_iff [THEN iffD1])
      then have "urlStart (drop j (trim s) @ w)" by (rule urlStart_append)
      then have "urlStart (drop (?k + j) s)" by (simp only: e)
      then have "matchAt URL_REGEX (drop (?k + j) s) \<noteq> None" by (rule urlStart_iff [THEN iffD2])
      with assms show False by simp
    qed
  qed
qed

lemma URL_decomposition:
  "\<exists>gaps. length gaps = Suc (length (matchGlobal URL_REGEX s))
     \<and> s = concat (map (\<lambda>(g, u). g @ u) (zip gaps (matchGlobal URL_REGEX s))) @ last gaps
     \<and> replaceGlobal URL_REGEX [] s = concat gaps"
proof (induction s rule: length_induct)
  case (1 s)
  show ?case
  proof (cases "search URL_REGEX s")
    case None
    then have "matchGlobal URL_REGEX s = []"
      by (subst matchGlobal_URL) simp
    moreover from None have "replaceGlobal URL_REGEX [] s = s"
      by (subst replaceGlobal_URL) simp
    ultimately have "length [s] = Suc (length (matchGlobal URL_REGEX s))
       \<and> s = concat (map (\<lambda>(g, u). g @ u) (zip [s] (matchGlobal URL_REGEX s))) @ last [s]
       \<and> replaceGlobal URL_REGEX [] s = concat [s]" by simp
    then show ?thesis by blast
  next
    case (Some a)
    obtain i n g where a: "a = (i, n, g)" by (cases a)
    let ?s' = "drop (i + n) s"
    from Some a have sr: "search URL_REGEX s = Some (i, n, g)" by simp
    from search_SomeD [OF sr] have m: "matchAt URL_REGEX (drop i s) = Some (n, g)" by simp
    from matchAt_URL_pos [OF m] have n: "0 < n" .
    from search_length [OF sr] n have "length ?s' < length s" by simp
    with "1.IH" obtain gaps where gaps: "length gaps = Suc (length (matchGlobal URL_REGEX ?s'))"
      "?s' = concat (map (\<lambda>(g, u). g @ u) (zip gaps (matchGlobal URL_REGEX ?s'))) @ last gaps"
      "replaceGlobal URL_REGEX [] ?s' = concat gaps" by blast
    have mg: "matchGlobal URL_REGEX s = take n (drop i s) # matchGlobal URL_REGEX ?s'"
      using sr by (subst matchGlobal_URL) simp
    have rg: "replaceGlobal URL_REGEX [] s = take i s @ replaceGlobal URL_REGEX [] ?s'"
      using sr by (subst replaceGlobal_URL) simp
    have s: "s = take i s @ take n (drop i s) @ ?s'"
      by (metis append_take_drop_id drop_drop add.commute)
    from gaps(1) have ne: "gaps \<noteq> []" by auto
    have "length (take i s # gaps) = Suc (length (matchGlobal URL_REGEX s))"
      using gaps(1) mg by simp
    moreover have "s = concat (map (\<lambda>(g, u). g @ u) (zip (take i s # gaps) (matchGlobal URL_REGEX s)))
        @ last (take i s # gaps)"
      using gaps(2) ne s by (simp add: mg)
    moreover have "replaceGlobal URL_REGEX [] s = concat (take i s # gaps)"
      using rg gaps(3) by simp
    ultimately show ?thesis by blast
  qed
qed

lemma URL_matches_shape:
  "u \<in> set (matchGlobal URL_REGEX s) \<Longrightarrow>
     \<exists>scheme run. (scheme = str ''http://'' \<or> scheme = str ''https://'')
        \<and> u = scheme @ run \<and> run \<noteq> [] \<and> (\<forall>x \<in> set run. \<not> isSpace x)"
proof (induction s rule: length_induct)
  case (1 s)
  show ?case
  proof (cases "search URL_REGEX s")
    case None
    then have "matchGlobal URL_REGEX s = []" by (subst matchGlobal_URL) simp
    with "1.prems" show ?thesis by simp
  next
    case (Some a)
    obtain i n g where a: "a = (i, n, g)" by (cases a)
    let ?s' = "drop (i + n) s"
    from Some a have sr: "search URL_REGEX s = Some (i, n, g)" by simp
    from search_SomeD [OF sr] have m: "matchAt URL_REGEX (drop i s) = Some (n, g)" by simp
    from matchAt_URL_pos [OF m] have n: "0 < n" .
    from search_length [OF sr] n have less: "length ?s' < length s" by simp
    have mg: "matchGlobal URL_REGEX s = take n (drop i s) # matchGlobal URL_REGEX ?s'"
      using sr by (subst matchGlobal_URL) simp
    with "1.prems" consider "u = take n (drop i s)" | "u \<in> set (matchGlobal URL_REGEX ?s')"
      by auto
    then show ?thesis
    proof cases
      case 1
      with matchAt_URL_shape [OF m] show ?thesis by blast
    next
      case 2
      with "1.IH" less show ?thesis by blast
    qed
  qed
qed

lemma decodeAll_links:
  "decodeAll ls = Inr ds \<Longrightarrow> list_all2 (\<lambda>d u. decodeURIComponent u = Inr d) ds ls"
  by (induction ls arbitrary: ds) (auto split: sum.splits)

lemma extractLinks_example:
  "extractLinks (str ''see http://a.com and http://b.com'')
     = Inr \<lparr>el_text = str ''see  and'', el_links = [str ''http://a.com'', str ''http://b.com'']\<rparr>"
  by (simp add: extractLinks_def URL_REGEX_def regex_eval decode_eval matchGlobal.simps
        replaceGlobal.simps)

text \<open>
  C7, as stated, fails on its own example: only the two ends of the remainder are
  trimmed, so the two spaces around the first URL stay, and the text is
  \<open>see  and\<close> with two spaces, not \<open>see and\<close>.
\<close>

theorem extractLinks_example_counterexample:
  "extractLinks (str ''see http://a.com and http://b.com'')
     \<noteq> Inr \<lparr>el_text = str ''see and'', el_links = [str ''http://a.com'', str ''http://b.com'']\<rparr>"
  by (simp add: extractLinks_def URL_REGEX_def regex_eval decode_eval matchGlobal.simps
        replaceGlobal.simps)

text \<open>
  C7, amended. On the empty input the result is the empty text and no links. Whenever
  \<open>extractLinks\<close> returns a result: the input is the matched URLs in their order with
  gaps between them, and the text is the gaps joined and trimmed; every match is an
  absolute HTTP(S) URL, a scheme followed by code units that are not white space; the
  links are the matches, in order, each percent-decoded; no URL is left in the text;
  and the text neither starts nor ends with white space. On the example the text is
  \<open>see  and\<close>, with the two spaces that surrounded the first URL.
\<close>

theorem extractLinks_removes_urls:
  "extractLinks [] = Inr \<lparr>el_text = [], el_links = []\<rparr>
   \<and> (extractLinks t = Inr r \<longrightarrow>
        (\<exists>gaps. length gaps = Suc (length (matchGlobal URL_REGEX t))
           \<and> t = concat (map (\<lambda>(g, u). g @ u) (zip gaps (matchGlobal URL_REGEX t))) @ last gaps
           \<and> el_text r = trim (concat gaps))
        \<and> (\<forall>u \<in> set (matchGlobal URL_REGEX t).
              \<exists>scheme run. (scheme = str ''http://'' \<or> scheme = str ''https://'')
                 \<and> u = scheme @ run \<and> run \<noteq> [] \<and> (\<forall>x \<in> set run. \<not> isSpace x))
        \<and> list_all2 (\<lambda>d u. decodeURIComponent u = Inr d) (el_links r) (matchGlobal URL_REGEX t)
        \<and> search URL_REGEX (el_text r) = None
        \<and> (el_text r = [] \<or> (\<not> isSpace (hd (el_text r)) \<and> \<not> isSpace (last (el_text r)))))
   \<and> extractLinks (str ''see http://a.com and http://b.com'')
       = Inr \<lparr>el_text = str ''see  and'', el_links = [str ''http://a.com'', str ''http://b.com'']\<rparr>"
proof (intro conjI impI)
  show "extractLinks [] = Inr \<lparr>el_text = [], el_links = []\<rparr>"
    by (simp add: extractLinks_def)
next
  assume e: "extractLinks t = Inr r"
  have mg: "matchGlobal URL_REGEX [] = []"
    by (subst matchGlobal_URL) (simp add: matchAt_URL_Nil)
  have rg: "replaceGlobal URL_REGEX [] [] = []"
    by (subst replaceGlobal_URL) (simp add: matchAt_URL_Nil)
  have tr: "trim [] = []" by (simp add: trim_def)
  have remainder: "el_text r = trim (replaceGlobal URL_REGEX [] t)"
    using e mg rg tr by (cases "t = []") (auto simp: extractLinks_def Let_def split: sum.splits)
  have dec: "decodeAll (matchGlobal URL_REGEX t) = Inr (el_links r)"
    using e mg by (cases "t = []") (auto simp: extractLinks_def Let_def split: sum.splits)
  from URL_decomposition [of t] remainder
  show "\<exists>gaps. length gaps = Suc (length (matchGlobal URL_REGEX t))
           \<and> t = concat (map (\<lambda>(g, u). g @ u) (zip gaps (matchGlobal URL_REGEX t))) @ last gaps
           \<and> el_text r = trim (concat gaps)"
    by auto
  show "\<forall>u \<in> set (matchGlobal URL_REGEX t).
              \<exists>scheme run. (scheme = str ''http://'' \<or> scheme = str ''https://'')
                 \<and> u = scheme @ run \<and> run \<noteq> [] \<and> (\<forall>x \<in> set run. \<not> isSpace x)"
    using URL_matches_shape by blast
  show "list_all2 (\<lambda>d u. decodeURIComponent u = Inr d) (el_links r) (matchGlobal URL_REGEX t)"
    using dec by (rule decodeAll_links)
  show "search URL_REGEX (el_text r) = None"
    unfolding remainder by (rule trim_clean) (rule replaceGlobal_URL_clean)
  show "el_text r = [] \<or> (\<not> isSpace (hd (el_text r)) \<and> \<not> isSpace (last (el_text r)))"
    unfolding remainder by (rule trim_ends)
next
  show "extractLinks (str ''see http://a.com and http://b.com'')
       = Inr \<lparr>el_text = str ''see  and'', el_links = [str ''http://a.com'', str ''http://b.com'']\<rparr>"
    by (rule extractLinks_example)
qed

theorem extractLinks_removes_urls_witness:
  "extractLinks (str ''see http://a.com and http://b.com'')
     = Inr \<lparr>el_text = str ''see  and'', el_links = [str ''http://a.com'', str ''http://b.com'']\<rparr>
   \<and> search URL_REGEX (str ''see  and'') = None
   \<and> list_all2 (\<lambda>d u. decodeURIComponent u = Inr d) [str ''http://a.com'', str ''http://b.com'']
        (matchGlobal URL_REGEX (str ''see http://a.com and http://b.com''))"
proof -
  note e = extractLinks_example
  from extractLinks_removes_urls [of "str ''see http://a.com and http://b.com''"
      "\<lparr>el_text = str ''see  and'', el_links = [str ''http://a.com'', str ''http://b.com'']\<rparr>"] e
  have "search URL_REGEX (el_text \<lparr>el_text = str ''see  and'',
            el_links = [str ''http://a.com'', str ''http://b.com'']\<rparr>) = None
      \<and> list_all2 (\<lambda>d u. decodeURIComponent u = Inr d)
          (el_links \<lparr>el_text = str ''see  and'',
            el_links = [str ''http://a.com'', str ''http://b.com'']\<rparr>)
          (matchGlobal URL_REGEX (str ''see http://a.com and http://b.com''))"
    by blast
  with e show ?thesis by simp
qed

end
